theory Spec2Isabelle
  imports Complex_Main "HOL-Library.Multiset"
begin

section \<open>Values, packets and entities\<close>

text \<open>
  JavaScript numbers are modelled as real numbers with exact arithmetic: the rounding of
  IEEE doubles, NaN and the infinities are not represented. A packet argument is a
  primitive value or an object; an object is known only by its reference.
\<close>

datatype jsval = Undefined | Num real | Str string | Bool bool | Obj nat

text \<open>
  The operator \<open>==\<close> on the values above: primitives of one type are equal when their
  values are, objects when they are the same reference, \<open>undefined == undefined\<close> holds.
  The coercing cases of \<open>==\<close> between values of different types (a number against a numeric
  string or a boolean) are not modelled and count as unequal; the declared parameter types
  (\<open>id: number\<close>) keep typed packets away from them.
\<close>

definition loose_eq :: "jsval \<Rightarrow> jsval \<Rightarrow> bool" where
  "loose_eq a b = (a = b)"

text \<open>
  \<open>RPCPacket\<close>, restricted to the fields that \<open>app.ts\<close> reads; \<open>methodName\<close> is its
  field \<open>method\<close>.
\<close>

record packet =
  className :: string
  methodName :: string
  args :: "jsval list"
  timestamp :: "real option"

text \<open>\<open>args[i]\<close>: reading past the end of an array gives \<open>undefined\<close>.\<close>

fun arg :: "nat \<Rightarrow> jsval list \<Rightarrow> jsval" where
  "arg i [] = Undefined"
| "arg 0 (a # as) = a"
| "arg (Suc i) (a # as) = arg i as"

text \<open>
  Modelled from the spec: the class \<open>Entity\<close> (\<open>entityBase/entity\<close>) is not among the
  sources. An entity carries the id, owner and path given to \<open>spawn\<close>, an optional unit id,
  and the name of the class that was constructed for it; position, velocity, rotation and
  the active flag play no part in what follows and are left out.
\<close>

record entity =
  entityId :: jsval
  ownerId :: jsval
  unitId :: "jsval option"
  path :: string
  entityClass :: string

text \<open>
  A spawnable class has a static \<open>spawnFor\<close> that is either an array of strings or a
  regular expression; the regular expression is represented by its \<open>test\<close> predicate.
\<close>

datatype matcher = SpawnList "string list" | SpawnRegExp "string \<Rightarrow> bool"

record spawnable =
  spawnName :: string
  spawnFor :: matcher

datatype ApplicationRunningState = welcomeState | lobbySelect | replaySelect | running | lobbyEnd

text \<open>What is written with \<open>console.warn\<close> and \<open>console.error\<close>.\<close>

datatype log_event =
    WarnExcessiveDt real
  | WarnUnableToLocateHandler string
  | WarnChunkWithoutCallback
  | ErrorNoSpawnPacket jsval
  | ErrorChunkNoTimestamp int
  | ErrorPacket0NoTimestamp
  | ErrorDispatch string string

text \<open>The exceptions the modelled methods can throw, and the one state the model leaves out.\<close>

datatype failure = TypeError | CannotFindGame string | SpeedUndefined

section \<open>The application state\<close>

text \<open>
  The fields of \<open>Application\<close> that the replay engine and the entity registry use.
  \<open>groupedReplayPackets\<close> is a sparse array: a second without a bucket is \<open>None\<close>.
  \<open>onReplayChunk\<close> is \<open>None\<close> for \<open>null\<close> and \<open>Some b\<close> for the callback installed by
  \<open>requestReplay\<close>, \<open>b\<close> telling whether an \<open>onProgress\<close> function was passed.
  \<open>expectedReplayChunks\<close> is the field of the client object; \<open>resolved\<close> counts the calls of
  the promise's \<open>res\<close>, \<open>progress\<close> lists the calls of \<open>onProgress\<close> (received, expected),
  \<open>removed\<close> lists the entities whose \<open>remove()\<close> was called, \<open>dispatched\<close> the packets
  handed to \<open>RPCController.handlePacket\<close>, \<open>console\<close> the warnings and errors written.
\<close>

record app =
  replayPackets :: "packet list"
  groupedReplayPackets :: "int \<Rightarrow> packet list option"
  onReplayChunk :: "bool option"
  isReplay :: bool
  replayStartTime :: real
  currentReplayChunkReceive :: int
  replayCurrentTime :: real
  prevReplayTime :: real
  replaySpeed :: int
  entities :: "entity list"
  spawnables :: "spawnable list"
  messageHandler :: "string option"
  game :: "string option"
  gameList :: "string list"
  state :: ApplicationRunningState
  expectedReplayChunks :: int
  resolved :: nat
  progress :: "(int \<times> int) list"
  removed :: "entity list"
  dispatched :: "packet list"
  console :: "log_event list"

text \<open>The field initialisers of the class; the list of spawnable classes is a parameter.\<close>

definition initial :: "spawnable list \<Rightarrow> app" where
  "initial sp =
     \<lparr> replayPackets = [], groupedReplayPackets = (\<lambda>_. None), onReplayChunk = None,
       isReplay = False, replayStartTime = 0, currentReplayChunkReceive = 0,
       replayCurrentTime = 0, prevReplayTime = 0, replaySpeed = 7, entities = [],
       spawnables = sp, messageHandler = None, game = None, gameList = [],
       state = welcomeState, expectedReplayChunks = 0, resolved = 0, progress = [],
       removed = [], dispatched = [], console = [] \<rparr>"

section \<open>Replay speed\<close>

definition REPLAY_SPEEDS :: "real list" where
  "REPLAY_SPEEDS = [-8, -4, -2, -1, -1/2, 0, 1/2, 1, 2, 4, 8, 16, 32]"

text \<open>
  \<open>REPLAY_SPEEDS[this.replaySpeed]\<close>; outside the table the read gives \<open>undefined\<close>,
  here \<open>None\<close>.
\<close>

definition speedAt :: "int \<Rightarrow> real option" where
  "speedAt i = (if 0 \<le> i \<and> i < int (length REPLAY_SPEEDS)
                then Some (REPLAY_SPEEDS ! nat i) else None)"

definition computedReplaySpeed :: "app \<Rightarrow> real option" where
  "computedReplaySpeed s = speedAt (replaySpeed s)"

text \<open>
  \<open>handleKeyDown\<close>, for the key of the event. Toggling the user interface (key \<open>f\<close>) touches
  the document only.
\<close>

definition handleKeyDown :: "string \<Rightarrow> app \<Rightarrow> app" where
  "handleKeyDown key s =
     (if state s \<noteq> running then s
      else
        let s1 = (if key = ''ArrowLeft''
                  then s\<lparr>replaySpeed := max (replaySpeed s - 1) 0\<rparr> else s);
            s2 = (if key = ''ArrowRight''
                  then s1\<lparr>replaySpeed := min (replaySpeed s1 + 1) (int (length REPLAY_SPEEDS) - 1)\<rparr>
                  else s1)
        in s2)"

section \<open>Strings\<close>

text \<open>
  The string methods the spawn resolver uses, on ASCII text: \<open>toLowerCase\<close> maps the
  letters A to Z (codes 65 to 90) to the code 32 higher, which is the same code with the
  bit of value 32 set; \<open>trim\<close> strips tab, line feed, vertical tab, form feed, carriage return
  and space at both ends. The letters and white space beyond ASCII that JavaScript also
  handles are not represented.
\<close>

definition toLowerChar :: "char \<Rightarrow> char" where
  "toLowerChar c =
     (let n = (of_char c :: nat)
      in if 65 \<le> n \<and> n \<le> 90
         then (case c of Char b0 b1 b2 b3 b4 b5 b6 b7 \<Rightarrow> Char b0 b1 b2 b3 b4 True b6 b7)
         else c)"

definition toLowerCase :: "string \<Rightarrow> string" where
  "toLowerCase s = map toLowerChar s"

definition isWhiteSpace :: "char \<Rightarrow> bool" where
  "isWhiteSpace c = (let n = (of_char c :: nat) in (9 \<le> n \<and> n \<le> 13) \<or> n = 32)"

definition trim :: "string \<Rightarrow> string" where
  "trim s = rev (dropWhile isWhiteSpace (rev (dropWhile isWhiteSpace s)))"

definition startsWith :: "string \<Rightarrow> string \<Rightarrow> bool" where
  "startsWith s pre = (take (length pre) s = pre)"

fun includes_str :: "string \<Rightarrow> string \<Rightarrow> bool" where
  "includes_str [] sub = (sub = [])"
| "includes_str (c # cs) sub = (startsWith (c # cs) sub \<or> includes_str cs sub)"

section \<open>Entity registry and spawn resolver\<close>

text \<open>The static \<open>spawnFor\<close> of \<open>AIAirVehicle\<close>.\<close>

definition AIAirVehicle_spawnFor :: "string list" where
  "AIAirVehicle_spawnFor =
     [''Units/Allied/ABomberAI'', ''Units/Enemy/AIUCAV'', ''Units/Enemy/ASF-30'',
      ''Units/Enemy/ASF-33'', ''Units/Enemy/ASF-58'', ''Units/Allied/AV-42CAI'',
      ''Units/Allied/E-4'', ''Units/Enemy/AEW-50'', ''Units/Enemy/EBomberAI'',
      ''Units/Allied/F-45A AI'', ''Units/Allied/FA-26A'', ''Units/Allied/FA-26B AI'',
      ''Units/Enemy/GAV-25'', ''Units/Allied/KC-49'', ''Units/Allied/MQ-31'',
      ''Units/Enemy/T-55 AI-E'', ''Units/Allied/T-55 AI'']"

text \<open>
  The field \<open>spawnables\<close> of the application, in its order. The \<open>spawnFor\<close> of the four
  classes whose files are not among the sources are parameters.
\<close>

definition spawnables_of :: "matcher \<Rightarrow> matcher \<Rightarrow> matcher \<Rightarrow> matcher \<Rightarrow> spawnable list" where
  "spawnables_of playerVehicle missileEntity gunEntity aiGroundUnit =
     [\<lparr>spawnName = ''PlayerVehicle'', spawnFor = playerVehicle\<rparr>,
      \<lparr>spawnName = ''AIAirVehicle'', spawnFor = SpawnList AIAirVehicle_spawnFor\<rparr>,
      \<lparr>spawnName = ''MissileEntity'', spawnFor = missileEntity\<rparr>,
      \<lparr>spawnName = ''GunEntity'', spawnFor = gunEntity\<rparr>,
      \<lparr>spawnName = ''AIGroundUnit'', spawnFor = aiGroundUnit\<rparr>]"

text \<open>The test made for one class in the loop of \<open>handleEntitySpawn\<close>.\<close>

fun matches :: "matcher \<Rightarrow> string \<Rightarrow> bool" where
  "matches (SpawnList cs) p = (toLowerCase (trim p) \<in> set (map toLowerCase cs))"
| "matches (SpawnRegExp test) p = test (trim p)"

text \<open>The loop itself: the first class that matches, \<open>None\<close> when \<open>EntityClass\<close> stays unset.\<close>

fun resolve :: "spawnable list \<Rightarrow> string \<Rightarrow> spawnable option" where
  "resolve [] p = None"
| "resolve (eClass # rest) p = (if matches (spawnFor eClass) p then Some eClass else resolve rest p)"

definition addEntity :: "entity \<Rightarrow> app \<Rightarrow> app" where
  "addEntity e s = s\<lparr>entities := entities s @ [e]\<rparr>"

text \<open>
  Modelled from the spec: \<open>new EntityClass(this)\<close> followed by \<open>entity.spawn(id, ownerId, path,
  position, rotation, isActive)\<close>; the constructor and \<open>spawn\<close> belong to the class \<open>Entity\<close>,
  which is not among the sources. The new entity has the id, owner and path it was given.
\<close>

definition spawn :: "spawnable \<Rightarrow> jsval \<Rightarrow> jsval \<Rightarrow> string \<Rightarrow> entity" where
  "spawn eClass i owner p =
     \<lparr>entityId = i, ownerId = owner, unitId = None, path = p, entityClass = spawnName eClass\<rparr>"

definition handleEntitySpawn ::
  "jsval \<Rightarrow> jsval \<Rightarrow> string \<Rightarrow> jsval \<Rightarrow> jsval \<Rightarrow> jsval \<Rightarrow> app \<Rightarrow> app" where
  "handleEntitySpawn i owner p position rotation isActive s =
     (case resolve (spawnables s) p of
        None \<Rightarrow>
          (if \<not> startsWith p ''HPEquips'' \<and> \<not> includes_str p ''Rearm''
           then s\<lparr>console := console s @ [WarnUnableToLocateHandler p]\<rparr>
           else s)
      | Some eClass \<Rightarrow> addEntity (spawn eClass i owner p) s)"

text \<open>
  The loop of \<open>MessageHandler.NetDestroy\<close> over the entity list: the list without the first
  entity whose id is \<open>== id\<close>, and that entity.
\<close>

fun destroyFirst :: "jsval \<Rightarrow> entity list \<Rightarrow> entity list \<times> entity option" where
  "destroyFirst i [] = ([], None)"
| "destroyFirst i (e # es) =
     (if loose_eq (entityId e) i then (es, Some e)
      else (case destroyFirst i es of (es', r) \<Rightarrow> (e # es', r)))"

definition NetDestroy :: "jsval \<Rightarrow> app \<Rightarrow> app" where
  "NetDestroy i s =
     (case destroyFirst i (entities s) of
        (es, None) \<Rightarrow> s
      | (es, Some e) \<Rightarrow> s\<lparr>entities := es, removed := removed s @ [e]\<rparr>)"

text \<open>
  \<open>MessageHandler.SetEntityUnitID\<close>: the first entity whose id is \<open>== entityId\<close> gets the
  unit id. Modelled from the spec: \<open>setUnitId\<close> belongs to the class \<open>Entity\<close>, which is not
  among the sources, and is taken to store the unit id in the entity.
\<close>

fun setUnitIdFirst :: "jsval \<Rightarrow> jsval \<Rightarrow> entity list \<Rightarrow> entity list" where
  "setUnitIdFirst i u [] = []"
| "setUnitIdFirst i u (e # es) =
     (if loose_eq (entityId e) i then e\<lparr>unitId := Some u\<rparr> # es
      else e # setUnitIdFirst i u es)"

definition SetEntityUnitID :: "jsval \<Rightarrow> jsval \<Rightarrow> app \<Rightarrow> app" where
  "SetEntityUnitID i u s = s\<lparr>entities := setUnitIdFirst i u (entities s)\<rparr>"

text \<open>
  \<open>MessageHandler.NetInstantiate\<close>. The path is a string by its declared type, and
  \<open>path.trim()\<close> throws on anything else.
\<close>

definition NetInstantiate ::
  "jsval \<Rightarrow> jsval \<Rightarrow> jsval \<Rightarrow> jsval \<Rightarrow> jsval \<Rightarrow> jsval \<Rightarrow> app \<Rightarrow> failure + app" where
  "NetInstantiate i owner p pos rot active s =
     (case p of Str str \<Rightarrow> Inr (handleEntitySpawn i owner str pos rot active s)
              | _ \<Rightarrow> Inl TypeError)"

text \<open>
  \<open>subscribe\<close> with the id of a game: the part that switches the session. Every live entity
  is removed, the list is emptied and a new message handler takes the place of the old one.
  Starting the scene and loading the map are left out.
\<close>

definition subscribe :: "string \<Rightarrow> app \<Rightarrow> failure + app" where
  "subscribe gameRef s =
     (case List.find (\<lambda>g. g = gameRef) (gameList s) of
        None \<Rightarrow> Inl (CannotFindGame gameRef)
      | Some g \<Rightarrow>
          Inr (s\<lparr>removed := removed s @ entities s, entities := [],
                 game := Some g, messageHandler := Some g\<rparr>))"

section \<open>Receiving a replay\<close>

text \<open>
  \<open>requestReplay\<close>: the chunk counter is reset and the callback installed; \<open>hasProgress\<close>
  tells whether \<open>onProgress\<close> was passed. Sending the request to the server is left out.
\<close>

definition requestReplay :: "bool \<Rightarrow> app \<Rightarrow> app" where
  "requestReplay hasProgress s =
     s\<lparr>currentReplayChunkReceive := 0, onReplayChunk := Some hasProgress\<rparr>"

text \<open>The callback that \<open>requestReplay\<close> installs in \<open>onReplayChunk\<close>.\<close>

definition replayChunkCallback :: "bool \<Rightarrow> app \<Rightarrow> app" where
  "replayChunkCallback hasProgress s =
     (let s1 = s\<lparr>currentReplayChunkReceive := currentReplayChunkReceive s + 1\<rparr>;
          s2 = (if currentReplayChunkReceive s1 = expectedReplayChunks s1
                then s1\<lparr>resolved := resolved s1 + 1, onReplayChunk := None\<rparr> else s1)
      in if hasProgress
         then s2\<lparr>progress := progress s2 @ [(currentReplayChunkReceive s2, expectedReplayChunks s2)]\<rparr>
         else s2)"

text \<open>The interpolation of timestamps over the packets of the chunk with number \<open>chunk\<close>.\<close>

definition interpolateTimestamps :: "int \<Rightarrow> packet list \<Rightarrow> packet list" where
  "interpolateTimestamps chunk rpcs =
     (let msPerChunk = 30 * 1000;
          tsStep = msPerChunk / of_nat (length rpcs)
      in map (\<lambda>(idx, rpc). rpc\<lparr>timestamp := Some (of_int chunk * msPerChunk + tsStep * of_nat idx)\<rparr>)
           (enumerate 0 rpcs))"

text \<open>\<open>rpc.timestamp ?? Date.now()\<close>, for the clock reading \<open>now\<close>.\<close>

definition timestampOr :: "real \<Rightarrow> packet \<Rightarrow> real" where
  "timestampOr now rpc = (case timestamp rpc of Some t \<Rightarrow> t | None \<Rightarrow> now)"

text \<open>One step of the loop that files the packets of a chunk under their second.\<close>

definition groupPacket ::
  "real \<Rightarrow> packet \<Rightarrow> (int \<Rightarrow> packet list option) \<Rightarrow> (int \<Rightarrow> packet list option)" where
  "groupPacket now rpc grouped =
     (let sec = \<lfloor>timestampOr now rpc / 1000\<rfloor>
      in (case grouped sec of
            None \<Rightarrow> grouped(sec \<mapsto> [rpc])
          | Some bucket \<Rightarrow> grouped(sec \<mapsto> bucket @ [rpc])))"

text \<open>
  \<open>handleReplayChunk\<close>, for the packets \<open>rpcs\<close> that \<open>decompressRpcPackets\<close> has decoded from
  the chunk. The packets pushed to \<open>replayPackets\<close> are the objects that receive the
  interpolated timestamps afterwards, so the list holds them with those timestamps. With an
  empty batch \<open>rpcs[0].timestamp\<close> throws before anything is changed. The clock is read
  once for the chunk.
\<close>

definition handleReplayChunk :: "real \<Rightarrow> packet list \<Rightarrow> app \<Rightarrow> failure + app" where
  "handleReplayChunk now rpcs s =
     (case rpcs of
        [] \<Rightarrow> Inl TypeError
      | rpc0 # _ \<Rightarrow>
         (let rpcs1 = (if timestamp rpc0 = None
                       then interpolateTimestamps (currentReplayChunkReceive s) rpcs else rpcs);
              s1 = (if timestamp rpc0 = None
                    then s\<lparr>console := console s @ [ErrorChunkNoTimestamp (currentReplayChunkReceive s)]\<rparr>
                    else s);
              s2 = s1\<lparr>replayPackets := replayPackets s1 @ rpcs1,
                       groupedReplayPackets := fold (groupPacket now) rpcs1 (groupedReplayPackets s1)\<rparr>
          in Inr (case onReplayChunk s2 of
                    Some hasProgress \<Rightarrow> replayChunkCallback hasProgress s2
                  | None \<Rightarrow> s2\<lparr>console := console s2 @ [WarnChunkWithoutCallback]\<rparr>)))"

text \<open>Handling the chunks of a list one after the other, each with its clock reading.\<close>

fun handleReplayChunks :: "(real \<times> packet list) list \<Rightarrow> app \<Rightarrow> failure + app" where
  "handleReplayChunks [] s = Inr s"
| "handleReplayChunks ((now, rpcs) # rest) s =
     (case handleReplayChunk now rpcs s of Inl e \<Rightarrow> Inl e | Inr s' \<Rightarrow> handleReplayChunks rest s')"


text \<open>\<open>this.groupedReplayPackets[Math.floor(t / 1000)] ?? []\<close>, the lookup made by \<open>runReplay\<close>.\<close>

definition packetGroup :: "app \<Rightarrow> real \<Rightarrow> packet list" where
  "packetGroup s t = (case groupedReplayPackets s \<lfloor>t / 1000\<rfloor> of None \<Rightarrow> [] | Some bucket \<Rightarrow> bucket)"

text \<open>
  \<open>beginReplay\<close>, up to the start of the scene: \<open>start()\<close> and the loading of the map
  complete later and are left out. \<open>replayPackets[0].timestamp\<close> throws on an empty store.
\<close>

definition beginReplay :: "string \<Rightarrow> app \<Rightarrow> failure + app" where
  "beginReplay i s =
     (let s1 = s\<lparr>isReplay := True\<rparr>
      in (case replayPackets s1 of
            [] \<Rightarrow> Inl TypeError
          | rpc0 # _ \<Rightarrow>
              (case timestamp rpc0 of
                 None \<Rightarrow> Inr (s1\<lparr>console := console s1 @ [ErrorPacket0NoTimestamp]\<rparr>)
               | Some t \<Rightarrow>
                   Inr (s1\<lparr>replayStartTime := t, replayCurrentTime := t,
                           messageHandler := Some i, game := Some i\<rparr>))))"

section \<open>Dispatch\<close>

text \<open>
  Modelled from the spec: \<open>RPCController.handlePacket\<close> belongs to the package
  \<open>VTOLLiveViewerCommon\<close>, which is not among the sources. Dispatch resolves the handler of a
  packet and invokes the named method with the packet's arguments; a packet for a handler
  that is not registered or for a method the handler does not have, and a call that throws,
  is logged and dropped. Of the handlers, the message handler of the current game is
  modelled, with its three methods; a packet for any other handler (the application
  itself, an entity) leaves the modelled state as it is. Every packet handed over is
  recorded in \<open>dispatched\<close>.
\<close>

definition invoke :: "packet \<Rightarrow> app \<Rightarrow> app" where
  "invoke p s =
     (if className p = ''MessageHandler'' then
        (case messageHandler s of
           None \<Rightarrow> s\<lparr>console := console s @ [ErrorDispatch (className p) (methodName p)]\<rparr>
         | Some _ \<Rightarrow>
             if methodName p = ''NetInstantiate'' then
               (case NetInstantiate (arg 0 (args p)) (arg 1 (args p)) (arg 2 (args p))
                       (arg 3 (args p)) (arg 4 (args p)) (arg 5 (args p)) s of
                  Inl _ \<Rightarrow> s\<lparr>console := console s @ [ErrorDispatch (className p) (methodName p)]\<rparr>
                | Inr s' \<Rightarrow> s')
             else if methodName p = ''NetDestroy'' then NetDestroy (arg 0 (args p)) s
             else if methodName p = ''SetEntityUnitID''
             then SetEntityUnitID (arg 0 (args p)) (arg 1 (args p)) s
             else s\<lparr>console := console s @ [ErrorDispatch (className p) (methodName p)]\<rparr>)
      else s)"

definition handlePacket :: "packet \<Rightarrow> app \<Rightarrow> app" where
  "handlePacket p s = invoke p (s\<lparr>dispatched := dispatched s @ [p]\<rparr>)"

section \<open>Playing a replay\<close>

definition packetIsInTimeframe :: "real \<Rightarrow> app \<Rightarrow> packet \<Rightarrow> bool" where
  "packetIsInTimeframe now s pkt =
     (let fromRecordingStart = timestampOr now pkt - replayStartTime s
      in (case computedReplaySpeed s of
            None \<Rightarrow> False
          | Some speed \<Rightarrow>
              if speed > 0
              then fromRecordingStart \<le> replayCurrentTime s \<and> fromRecordingStart > prevReplayTime s
              else if speed < 0
              then fromRecordingStart \<ge> replayCurrentTime s \<and> fromRecordingStart < prevReplayTime s
              else False))"

text \<open>What a handler of \<open>replaceRPCHandlers\<close> returns: a boolean or a packet.\<close>

datatype handler_result = ResBool bool | ResPacket packet

record ReplaceRPCHandler =
  h_className :: string
  h_method :: string
  handler :: "app \<Rightarrow> packet \<Rightarrow> failure + (app \<times> handler_result)"

text \<open>
  The handler registered for \<open>NetInstantiate\<close>; \<open>app.messageHandler.NetDestroy\<close> throws when
  no message handler has been created.
\<close>

definition undoNetInstantiate :: "app \<Rightarrow> packet \<Rightarrow> failure + (app \<times> handler_result)" where
  "undoNetInstantiate s rpc =
     (case messageHandler s of
        None \<Rightarrow> Inl TypeError
      | Some _ \<Rightarrow> Inr (NetDestroy (arg 0 (args rpc)) s, ResBool False))"

text \<open>
  The handler registered for \<open>NetDestroy\<close>. \<open>isSpawnPacketFor\<close> is the predicate it passes
  to \<open>find\<close>, which returns the first packet of \<open>replayPackets\<close> that satisfies it.
\<close>

definition isSpawnPacketFor :: "jsval \<Rightarrow> packet \<Rightarrow> bool" where
  "isSpawnPacketFor i p =
     (className p = ''MessageHandler'' \<and> methodName p = ''NetInstantiate'' \<and>
      loose_eq (arg 0 (args p)) i)"

definition undoNetDestroy :: "app \<Rightarrow> packet \<Rightarrow> failure + (app \<times> handler_result)" where
  "undoNetDestroy s rpc =
     (let i = arg 0 (args rpc);
          spawnPacket = List.find (isSpawnPacketFor i) (replayPackets s)
      in (case spawnPacket of
            None \<Rightarrow> Inr (s\<lparr>console := console s @ [ErrorNoSpawnPacket i]\<rparr>, ResBool False)
          | Some p \<Rightarrow> Inr (s, ResPacket p)))"

definition replaceRPCHandlers :: "ReplaceRPCHandler list" where
  "replaceRPCHandlers =
     [\<lparr>h_className = ''MessageHandler'', h_method = ''NetInstantiate'', handler = undoNetInstantiate\<rparr>,
      \<lparr>h_className = ''MessageHandler'', h_method = ''NetDestroy'', handler = undoNetDestroy\<rparr>]"

text \<open>
  The body of the \<open>forEach\<close> of \<open>runReplay\<close> for one candidate packet, on the state and the
  list \<open>packets\<close> collected so far.
\<close>

definition replayPacket ::
  "real \<Rightarrow> packet \<Rightarrow> app \<times> packet list \<Rightarrow> failure + (app \<times> packet list)" where
  "replayPacket now pkt sp =
     (case sp of (s, packets) \<Rightarrow>
        if \<not> packetIsInTimeframe now s pkt then Inr (s, packets)
        else if (case computedReplaySpeed s of Some speed \<Rightarrow> speed < 0 | None \<Rightarrow> False) then
          (case List.find (\<lambda>h. h_className h = className pkt \<and> h_method h = methodName pkt)
                  replaceRPCHandlers of
             Some h \<Rightarrow>
               (case handler h s pkt of
                  Inl e \<Rightarrow> Inl e
                | Inr (s', ResBool False) \<Rightarrow> Inr (s', packets)
                | Inr (s', ResPacket res) \<Rightarrow> Inr (s', packets @ [res])
                | Inr (s', ResBool True) \<Rightarrow> Inr (s', packets @ [pkt]))
           | None \<Rightarrow> Inr (s, packets @ [pkt]))
        else Inr (s, packets @ [pkt]))"

fun replayLoop ::
  "real \<Rightarrow> packet list \<Rightarrow> app \<times> packet list \<Rightarrow> failure + (app \<times> packet list)" where
  "replayLoop now [] sp = Inr sp"
| "replayLoop now (pkt # rest) sp =
     (case replayPacket now pkt sp of Inl e \<Rightarrow> Inl e | Inr sp' \<Rightarrow> replayLoop now rest sp')"

text \<open>
  \<open>runReplay\<close>: the new state and the returned time step. With a speed index outside the
  table the speed is \<open>undefined\<close> and the source turns the replay time into NaN, which the
  real numbers do not have; the model stops there with \<open>SpeedUndefined\<close>. An exception thrown
  by an undo handler leaves the method at once. The clock is read once for the tick.
\<close>

definition runReplay :: "real \<Rightarrow> real \<Rightarrow> app \<Rightarrow> failure + (app \<times> real)" where
  "runReplay now expectedDt s =
     (case computedReplaySpeed s of
        None \<Rightarrow> Inl SpeedUndefined
      | Some speed \<Rightarrow>
         (let s1 = (if expectedDt > 1000
                    then s\<lparr>console := console s @ [WarnExcessiveDt expectedDt]\<rparr> else s);
              dt = (if expectedDt > 1000 then 1000 / 60 else expectedDt);
              s2 = s1\<lparr>replayCurrentTime := replayCurrentTime s1 + dt * speed\<rparr>;
              currentPacketGroup = packetGroup s2 (replayCurrentTime s2);
              prevPacketGroup = packetGroup s2 (prevReplayTime s2)
          in (case replayLoop now (currentPacketGroup @ prevPacketGroup) (s2, []) of
                Inl e \<Rightarrow> Inl e
              | Inr (s3, packets) \<Rightarrow>
                  (let s4 = fold handlePacket packets s3
                   in Inr (s4\<lparr>prevReplayTime := replayCurrentTime s4\<rparr>, dt * speed)))))"

section \<open>What a reverse tick does with one packet\<close>

text \<open>
  Two functions for stating the theorems on reverse playback. For a packet that is in the
  time frame while the speed is negative, \<open>undone\<close> gives the packets that the loop of
  \<open>runReplay\<close> adds to the list to dispatch, and \<open>undoEffect\<close> the state the undo handler
  leaves.
\<close>

definition undone :: "packet list \<Rightarrow> packet \<Rightarrow> packet list" where
  "undone store pkt =
     (if className pkt = ''MessageHandler'' \<and> methodName pkt = ''NetInstantiate'' then []
      else if className pkt = ''MessageHandler'' \<and> methodName pkt = ''NetDestroy''
      then (case List.find (isSpawnPacketFor (arg 0 (args pkt))) store of
              None \<Rightarrow> [] | Some p \<Rightarrow> [p])
      else [pkt])"

definition undoEffect :: "packet \<Rightarrow> app \<Rightarrow> app" where
  "undoEffect pkt s =
     (if className pkt = ''MessageHandler'' \<and> methodName pkt = ''NetInstantiate''
      then NetDestroy (arg 0 (args pkt)) s
      else if className pkt = ''MessageHandler'' \<and> methodName pkt = ''NetDestroy'' \<and>
              List.find (isSpawnPacketFor (arg 0 (args pkt))) (replayPackets s) = None
      then s\<lparr>console := console s @ [ErrorNoSpawnPacket (arg 0 (args pkt))]\<rparr>
      else s)"

text \<open>
  Names for the intermediate values of \<open>runReplay\<close>: the time step after the check of
  \<open>expectedDt\<close>, the state once the replay time has been advanced, and the candidate
  packets, which are the bucket of the new replay time followed by the bucket of the
  previous one.
\<close>

definition tickDt :: "real \<Rightarrow> real" where
  "tickDt expectedDt = (if expectedDt > 1000 then 1000 / 60 else expectedDt)"

definition advanced :: "real \<Rightarrow> app \<Rightarrow> app" where
  "advanced expectedDt s =
     (case computedReplaySpeed s of
        None \<Rightarrow> s
      | Some speed \<Rightarrow>
          (if expectedDt > 1000
           then s\<lparr>console := console s @ [WarnExcessiveDt expectedDt]\<rparr> else s)
            \<lparr>replayCurrentTime := replayCurrentTime s + tickDt expectedDt * speed\<rparr>)"

definition candidates :: "real \<Rightarrow> app \<Rightarrow> packet list" where
  "candidates expectedDt s =
     packetGroup s (replayCurrentTime (advanced expectedDt s)) @ packetGroup s (prevReplayTime s)"










section \<open>Example values\<close>

definition ent :: "real \<Rightarrow> string \<Rightarrow> entity" where
  "ent n p = \<lparr>entityId = Num n, ownerId = Str ''0'', unitId = None, path = p,
             entityClass = ''AIAirVehicle''\<rparr>"

text \<open>
  A running replay application: a message handler is registered, and of the spawnable
  classes only \<open>AIAirVehicle\<close> accepts any path.
\<close>

definition exampleApp :: app where
  "exampleApp =
     (initial (spawnables_of (SpawnList []) (SpawnList []) (SpawnList []) (SpawnList [])))
       \<lparr>messageHandler := Some ''replay'', game := Some ''replay'', isReplay := True,
        state := running\<rparr>"

text \<open>Packets for the message handler, and a packet without a timestamp.\<close>

definition instantiatePacket :: "real \<Rightarrow> string \<Rightarrow> real \<Rightarrow> packet" where
  "instantiatePacket n p t =
     \<lparr>className = ''MessageHandler'', methodName = ''NetInstantiate'',
      args = [Num n, Str ''0'', Str p, Obj 0, Obj 1, Bool True], timestamp = Some t\<rparr>"

definition destroyPacket :: "real \<Rightarrow> real \<Rightarrow> packet" where
  "destroyPacket n t =
     \<lparr>className = ''MessageHandler'', methodName = ''NetDestroy'', args = [Num n], timestamp = Some t\<rparr>"

definition untimedPacket :: "string \<Rightarrow> packet" where
  "untimedPacket m = \<lparr>className = ''AIAirVehicle'', methodName = m, args = [], timestamp = None\<rparr>"

text \<open>A store in which id 7 is used by two entities one after the other.\<close>

definition exampleStore :: "packet list" where
  "exampleStore =
     [instantiatePacket 7 ''Units/Allied/E-4'' 1000, destroyPacket 7 2000,
      instantiatePacket 7 ''Units/Allied/FA-26A'' 3000, destroyPacket 7 4000]"

text \<open>The example store filed into its buckets, as \<open>handleReplayChunk\<close> files it.\<close>

definition exampleLoaded :: app where
  "exampleLoaded =
     exampleApp\<lparr>replayPackets := exampleStore,
                groupedReplayPackets := fold (groupPacket 0) exampleStore (\<lambda>_. None)\<rparr>"





section \<open>Theorems\<close>

lemma length_REPLAY_SPEEDS: "length REPLAY_SPEEDS = 13"
  by (simp add: REPLAY_SPEEDS_def)

lemma handleKeyDown_range:
  "0 \<le> replaySpeed s \<Longrightarrow> replaySpeed s \<le> 12 \<Longrightarrow>
   0 \<le> replaySpeed (handleKeyDown key s) \<and> replaySpeed (handleKeyDown key s) \<le> 12"
  by (simp add: handleKeyDown_def Let_def length_REPLAY_SPEEDS)

lemma fold_handleKeyDown_range:
  "0 \<le> replaySpeed s \<Longrightarrow> replaySpeed s \<le> 12 \<Longrightarrow>
   0 \<le> replaySpeed (fold handleKeyDown keys s) \<and> replaySpeed (fold handleKeyDown keys s) \<le> 12"
proof (induction keys arbitrary: s)
  case Nil
  then show ?case by simp
next
  case (Cons k ks)
  from handleKeyDown_range [OF Cons.prems]
  have "0 \<le> replaySpeed (handleKeyDown k s)" "replaySpeed (handleKeyDown k s) \<le> 12"
    by simp_all
  from Cons.IH [OF this] show ?case by simp
qed

text \<open>
  C8: from the initial speed index (7), and from any index inside the table, every
  sequence of key presses leaves the index inside \<open>[0, tableLength - 1]\<close>; ArrowLeft at
  index 0 leaves it at 0 and ArrowRight at the last index leaves it there.
\<close>

theorem C8_speed_index_clamped:
  "(0 \<le> replaySpeed s \<and> replaySpeed s \<le> int (length REPLAY_SPEEDS) - 1 \<longrightarrow>
      0 \<le> replaySpeed (fold handleKeyDown keys s) \<and>
      replaySpeed (fold handleKeyDown keys s) \<le> int (length REPLAY_SPEEDS) - 1) \<and>
   0 \<le> replaySpeed (fold handleKeyDown keys (initial sp)) \<and>
   replaySpeed (fold handleKeyDown keys (initial sp)) \<le> int (length REPLAY_SPEEDS) - 1 \<and>
   (replaySpeed s = 0 \<longrightarrow> replaySpeed (handleKeyDown ''ArrowLeft'' s) = 0) \<and>
   (replaySpeed s = int (length REPLAY_SPEEDS) - 1 \<longrightarrow>
      replaySpeed (handleKeyDown ''ArrowRight'' s) = int (length REPLAY_SPEEDS) - 1)"
proof -
  have i: "0 \<le> replaySpeed (initial sp)" "replaySpeed (initial sp) \<le> 12"
    by (simp_all add: initial_def)
  show ?thesis
    using fold_handleKeyDown_range [of s keys] fold_handleKeyDown_range [OF i, of keys]
    by (simp add: length_REPLAY_SPEEDS handleKeyDown_def Let_def)
qed

theorem C8_speed_index_clamped_witness:
  "replaySpeed (fold handleKeyDown (replicate 9 ''ArrowLeft'') ((initial [])\<lparr>state := running\<rparr>)) = 0 \<and>
   replaySpeed (fold handleKeyDown (replicate 9 ''ArrowRight'') ((initial [])\<lparr>state := running\<rparr>)) = 12 \<and>
   replaySpeed (handleKeyDown ''ArrowLeft'' ((initial [])\<lparr>state := running, replaySpeed := 0\<rparr>)) = 0 \<and>
   replaySpeed (handleKeyDown ''ArrowRight'' ((initial [])\<lparr>state := running, replaySpeed := 12\<rparr>)) = 12"
  using C8_speed_index_clamped [of "(initial [])\<lparr>state := running, replaySpeed := 0\<rparr>" "[]" "[]"]
    C8_speed_index_clamped [of "(initial [])\<lparr>state := running, replaySpeed := 12\<rparr>" "[]" "[]"]
  by (simp add: length_REPLAY_SPEEDS handleKeyDown_def Let_def initial_def eval_nat_numeral)


subsection \<open>Destroying an entity\<close>

lemma destroyFirst_none:
  "\<forall>e \<in> set es. \<not> loose_eq (entityId e) i \<Longrightarrow> destroyFirst i es = (es, None)"
  by (induction es) auto

lemma destroyFirst_some:
  "\<exists>e \<in> set es. loose_eq (entityId e) i \<Longrightarrow>
   \<exists>xs e ys. es = xs @ e # ys \<and> loose_eq (entityId e) i \<and>
     (\<forall>x \<in> set xs. \<not> loose_eq (entityId x) i) \<and> destroyFirst i es = (xs @ ys, Some e)"
proof (induction es)
  case Nil
  then show ?case by simp
next
  case (Cons a es)
  show ?case
  proof (cases "loose_eq (entityId a) i")
    case True
    then have "a # es = [] @ a # es \<and> loose_eq (entityId a) i \<and>
        (\<forall>x \<in> set []. \<not> loose_eq (entityId x) i) \<and> destroyFirst i (a # es) = ([] @ es, Some a)"
      by simp
    then show ?thesis by blast
  next
    case False
    with Cons.prems have "\<exists>e \<in> set es. loose_eq (entityId e) i" by auto
    from Cons.IH [OF this] obtain xs e ys where
      h: "es = xs @ e # ys" "loose_eq (entityId e) i"
         "\<forall>x \<in> set xs. \<not> loose_eq (entityId x) i" "destroyFirst i es = (xs @ ys, Some e)"
      by blast
    with False have "a # es = (a # xs) @ e # ys \<and> loose_eq (entityId e) i \<and>
        (\<forall>x \<in> set (a # xs). \<not> loose_eq (entityId x) i) \<and>
        destroyFirst i (a # es) = ((a # xs) @ ys, Some e)"
      by simp
    then show ?thesis by blast
  qed
qed

text \<open>
  C10: \<open>NetDestroy\<close> with an id that no live entity has returns the state as it was (the
  entity list, the teardown record and the console included; the method has no failing
  branch); with an id that some live entity has, the entity list is split at the first such
  entity, that entity is removed from the list and torn down, and the entities before and
  after it stay in place.
\<close>

theorem C10_NetDestroy:
  "((\<forall>e \<in> set (entities s). \<not> loose_eq (entityId e) i) \<longrightarrow> NetDestroy i s = s) \<and>
   ((\<exists>e \<in> set (entities s). loose_eq (entityId e) i) \<longrightarrow>
      (\<exists>xs e ys. entities s = xs @ e # ys \<and> loose_eq (entityId e) i \<and>
         (\<forall>x \<in> set xs. \<not> loose_eq (entityId x) i) \<and>
         NetDestroy i s = s\<lparr>entities := xs @ ys, removed := removed s @ [e]\<rparr>))"
proof (intro conjI impI)
  assume "\<forall>e \<in> set (entities s). \<not> loose_eq (entityId e) i"
  from destroyFirst_none [OF this] show "NetDestroy i s = s"
    by (simp add: NetDestroy_def)
next
  assume "\<exists>e \<in> set (entities s). loose_eq (entityId e) i"
  from destroyFirst_some [OF this] obtain xs e ys where
    h: "entities s = xs @ e # ys" "loose_eq (entityId e) i"
       "\<forall>x \<in> set xs. \<not> loose_eq (entityId x) i"
       "destroyFirst i (entities s) = (xs @ ys, Some e)"
    by blast
  then have "NetDestroy i s = s\<lparr>entities := xs @ ys, removed := removed s @ [e]\<rparr>"
    by (simp add: NetDestroy_def)
  with h show "\<exists>xs e ys. entities s = xs @ e # ys \<and> loose_eq (entityId e) i \<and>
         (\<forall>x \<in> set xs. \<not> loose_eq (entityId x) i) \<and>
         NetDestroy i s = s\<lparr>entities := xs @ ys, removed := removed s @ [e]\<rparr>"
    by blast
qed

theorem C10_NetDestroy_witness:
  "NetDestroy (Num 9) ((initial [])\<lparr>entities := [ent 1 ''a'', ent 7 ''b'', ent 3 ''c'', ent 7 ''d'']\<rparr>)
     = (initial [])\<lparr>entities := [ent 1 ''a'', ent 7 ''b'', ent 3 ''c'', ent 7 ''d'']\<rparr> \<and>
   entities (NetDestroy (Num 7)
       ((initial [])\<lparr>entities := [ent 1 ''a'', ent 7 ''b'', ent 3 ''c'', ent 7 ''d'']\<rparr>))
     = [ent 1 ''a'', ent 3 ''c'', ent 7 ''d''] \<and>
   removed (NetDestroy (Num 7)
       ((initial [])\<lparr>entities := [ent 1 ''a'', ent 7 ''b'', ent 3 ''c'', ent 7 ''d'']\<rparr>))
     = [ent 7 ''b'']"
  using C10_NetDestroy [of "(initial [])\<lparr>entities := [ent 1 ''a'', ent 7 ''b'', ent 3 ''c'', ent 7 ''d'']\<rparr>" "Num 9"]
    C10_NetDestroy [of "(initial [])\<lparr>entities := [ent 1 ''a'', ent 7 ''b'', ent 3 ''c'', ent 7 ''d'']\<rparr>" "Num 7"]
  by (simp add: NetDestroy_def loose_eq_def ent_def initial_def)

subsection \<open>Spawning\<close>

lemma resolve_None_iff:
  "resolve sps p = None \<longleftrightarrow> (\<forall>c \<in> set sps. \<not> matches (spawnFor c) p)"
  by (induction sps) auto

text \<open>
  C9: when the path matches none of the spawnable classes, \<open>handleEntitySpawn\<close> creates no
  entity and tears none down. If the path starts with \<open>HPEquips\<close> or contains \<open>Rearm\<close> the
  whole state is unchanged, nothing being written; for every other path the only change is
  one warning appended to the console, naming the path.
\<close>

theorem C9_unmatched_spawn:
  assumes "\<forall>c \<in> set (spawnables s). \<not> matches (spawnFor c) p"
  shows "entities (handleEntitySpawn i owner p pos rot act s) = entities s \<and>
         removed (handleEntitySpawn i owner p pos rot act s) = removed s \<and>
         (startsWith p ''HPEquips'' \<or> includes_str p ''Rearm'' \<longrightarrow>
            handleEntitySpawn i owner p pos rot act s = s) \<and>
         (\<not> (startsWith p ''HPEquips'' \<or> includes_str p ''Rearm'') \<longrightarrow>
            handleEntitySpawn i owner p pos rot act s
              = s\<lparr>console := console s @ [WarnUnableToLocateHandler p]\<rparr>)"
proof -
  from assms have "resolve (spawnables s) p = None"
    by (simp add: resolve_None_iff)
  then show ?thesis
    by (simp add: handleEntitySpawn_def)
qed

theorem C9_unmatched_spawn_witness:
  "handleEntitySpawn (Num 1) (Str ''0'') ''HPEquips/AFighter/fa26_gun'' (Obj 0) (Obj 1) (Bool True)
       (initial (spawnables_of (SpawnList []) (SpawnList []) (SpawnList []) (SpawnList [])))
     = initial (spawnables_of (SpawnList []) (SpawnList []) (SpawnList []) (SpawnList [])) \<and>
   handleEntitySpawn (Num 2) (Str ''0'') ''Units/RearmPoint'' (Obj 0) (Obj 1) (Bool True)
       (initial (spawnables_of (SpawnList []) (SpawnList []) (SpawnList []) (SpawnList [])))
     = initial (spawnables_of (SpawnList []) (SpawnList []) (SpawnList []) (SpawnList [])) \<and>
   handleEntitySpawn (Num 3) (Str ''0'') ''Units/Tree'' (Obj 0) (Obj 1) (Bool True)
       (initial (spawnables_of (SpawnList []) (SpawnList []) (SpawnList []) (SpawnList [])))
     = (initial (spawnables_of (SpawnList []) (SpawnList []) (SpawnList []) (SpawnList [])))
         \<lparr>console := [WarnUnableToLocateHandler ''Units/Tree'']\<rparr>"
proof -
  let ?s = "initial (spawnables_of (SpawnList []) (SpawnList []) (SpawnList []) (SpawnList []))"
  have sp: "spawnables ?s = spawnables_of (SpawnList []) (SpawnList []) (SpawnList []) (SpawnList [])"
    and co: "console ?s = []"
    by (simp_all add: initial_def)
  have m: "\<forall>c \<in> set (spawnables ?s). \<not> matches (spawnFor c) ''HPEquips/AFighter/fa26_gun''"
    "\<forall>c \<in> set (spawnables ?s). \<not> matches (spawnFor c) ''Units/RearmPoint''"
    "\<forall>c \<in> set (spawnables ?s). \<not> matches (spawnFor c) ''Units/Tree''"
    unfolding sp
    by (simp_all add: spawnables_of_def AIAirVehicle_spawnFor_def toLowerCase_def
        toLowerChar_def trim_def isWhiteSpace_def)
  have c: "startsWith ''HPEquips/AFighter/fa26_gun'' ''HPEquips''"
    "includes_str ''Units/RearmPoint'' ''Rearm''"
    "\<not> (startsWith ''Units/Tree'' ''HPEquips'' \<or> includes_str ''Units/Tree'' ''Rearm'')"
    by (simp_all add: startsWith_def)
  have a1: "handleEntitySpawn (Num 1) (Str ''0'') ''HPEquips/AFighter/fa26_gun'' (Obj 0) (Obj 1) (Bool True) ?s = ?s"
    using C9_unmatched_spawn [OF m(1), of "Num 1" "Str ''0''" "Obj 0" "Obj 1" "Bool True"] c(1)
    by blast
  have a2: "handleEntitySpawn (Num 2) (Str ''0'') ''Units/RearmPoint'' (Obj 0) (Obj 1) (Bool True) ?s = ?s"
    using C9_unmatched_spawn [OF m(2), of "Num 2" "Str ''0''" "Obj 0" "Obj 1" "Bool True"] c(2)
    by blast
  have a3: "handleEntitySpawn (Num 3) (Str ''0'') ''Units/Tree'' (Obj 0) (Obj 1) (Bool True) ?s
      = ?s\<lparr>console := console ?s @ [WarnUnableToLocateHandler ''Units/Tree'']\<rparr>"
    using C9_unmatched_spawn [OF m(3), of "Num 3" "Str ''0''" "Obj 0" "Obj 1" "Bool True"] c(3)
    by blast
  show ?thesis
    unfolding a1 a2 a3 co by simp
qed


subsection \<open>Uniqueness of entity ids\<close>

lemma destroyFirst_distinct:
  "distinct (map entityId es) \<Longrightarrow> distinct (map entityId (fst (destroyFirst i es)))"
proof (cases "\<exists>e \<in> set es. loose_eq (entityId e) i")
  case True
  assume d: "distinct (map entityId es)"
  from destroyFirst_some [OF True] obtain xs e ys where
    h: "es = xs @ e # ys" "destroyFirst i es = (xs @ ys, Some e)"
    by blast
  with d show ?thesis by auto
next
  case False
  assume "distinct (map entityId es)"
  with False show ?thesis by (simp add: destroyFirst_none)
qed

lemma destroyFirst_unchanged:
  "snd (destroyFirst i es) = None \<Longrightarrow> fst (destroyFirst i es) = es"
  by (induction es) (auto split: prod.splits)

lemma entities_NetDestroy: "entities (NetDestroy i s) = fst (destroyFirst i (entities s))"
  using destroyFirst_unchanged [of i "entities s"]
  by (cases "destroyFirst i (entities s)") (auto simp: NetDestroy_def split: option.splits)

lemma entities_handleEntitySpawn:
  "entities (handleEntitySpawn i owner p pos rot act s) =
     (case resolve (spawnables s) p of None \<Rightarrow> entities s
      | Some c \<Rightarrow> entities s @ [spawn c i owner p])"
  by (simp add: handleEntitySpawn_def addEntity_def split: option.splits)

text \<open>
  C6, as the code has it. Starting from a live set with unique ids: \<open>NetDestroy\<close> keeps the
  ids unique; a successful \<open>subscribe\<close> empties the live set; \<open>handleEntitySpawn\<close> with a path
  that resolves to a class appends one entity carrying the given id and writes nothing to
  the console, whether or not that id is live already, so the ids are unique afterwards
  exactly when the path did not resolve or the id was not live before.
\<close>

theorem C6_registry_uniqueness:
  assumes "distinct (map entityId (entities s))"
  shows "distinct (map entityId (entities (NetDestroy i s))) \<and>
         (\<forall>s'. subscribe g s = Inr s' \<longrightarrow> entities s' = []) \<and>
         (\<forall>c. resolve (spawnables s) p = Some c \<longrightarrow>
            handleEntitySpawn i owner p pos rot act s
              = s\<lparr>entities := entities s @ [spawn c i owner p]\<rparr>) \<and>
         (distinct (map entityId (entities (handleEntitySpawn i owner p pos rot act s))) \<longleftrightarrow>
            resolve (spawnables s) p = None \<or> i \<notin> entityId ` set (entities s))"
proof (intro conjI)
  show "distinct (map entityId (entities (NetDestroy i s)))"
    using assms by (simp add: entities_NetDestroy destroyFirst_distinct)
  show "\<forall>s'. subscribe g s = Inr s' \<longrightarrow> entities s' = []"
    by (auto simp: subscribe_def split: option.splits)
  show "\<forall>c. resolve (spawnables s) p = Some c \<longrightarrow>
            handleEntitySpawn i owner p pos rot act s
              = s\<lparr>entities := entities s @ [spawn c i owner p]\<rparr>"
    by (simp add: handleEntitySpawn_def addEntity_def)
  show "distinct (map entityId (entities (handleEntitySpawn i owner p pos rot act s))) \<longleftrightarrow>
            resolve (spawnables s) p = None \<or> i \<notin> entityId ` set (entities s)"
    using assms by (auto simp: entities_handleEntitySpawn spawn_def split: option.splits)
qed

theorem C6_registry_uniqueness_witness:
  "distinct (map entityId (entities (NetDestroy (Num 3) (exampleApp\<lparr>entities := [ent 1 ''a'', ent 3 ''c'']\<rparr>)))) \<and>
   entities (handleEntitySpawn (Num 7) (Str ''0'') ''Units/Allied/E-4'' (Obj 0) (Obj 1) (Bool True)
       (exampleApp\<lparr>entities := [ent 1 ''a'', ent 3 ''c'']\<rparr>))
     = [ent 1 ''a'', ent 3 ''c'', ent 7 ''Units/Allied/E-4''] \<and>
   distinct (map entityId (entities
     (handleEntitySpawn (Num 7) (Str ''0'') ''Units/Allied/E-4'' (Obj 0) (Obj 1) (Bool True)
       (exampleApp\<lparr>entities := [ent 1 ''a'', ent 3 ''c'']\<rparr>))))"
proof -
  let ?s = "exampleApp\<lparr>entities := [ent 1 ''a'', ent 3 ''c'']\<rparr>"
  have d: "distinct (map entityId (entities ?s))"
    by (simp add: ent_def)
  have r: "resolve (spawnables ?s) ''Units/Allied/E-4''
      = Some \<lparr>spawnName = ''AIAirVehicle'', spawnFor = SpawnList AIAirVehicle_spawnFor\<rparr>"
    by (simp add: exampleApp_def initial_def spawnables_of_def AIAirVehicle_spawnFor_def
        toLowerCase_def toLowerChar_def trim_def isWhiteSpace_def)
  have n: "Num 7 \<notin> entityId ` set (entities ?s)"
    by (simp add: ent_def)
  from C6_registry_uniqueness [OF d, where i = "Num 3"]
    C6_registry_uniqueness [OF d, where i = "Num 7" and p = "''Units/Allied/E-4''"
      and owner = "Str ''0''" and pos = "Obj 0" and rot = "Obj 1" and act = "Bool True"] r n
  show ?thesis
    by (simp add: spawn_def ent_def)
qed

text \<open>
  C6, the claim as worded fails: spawning id 7 twice with a path that resolves leaves two
  live entities with id 7, and nothing is written to the console.
\<close>

theorem C6_duplicate_spawn_counterexample:
  "map entityId (entities
     (handleEntitySpawn (Num 7) (Str ''0'') ''Units/Allied/E-4'' (Obj 2) (Obj 3) (Bool True)
       (handleEntitySpawn (Num 7) (Str ''0'') ''Units/Allied/E-4'' (Obj 0) (Obj 1) (Bool True)
          exampleApp))) = [Num 7, Num 7] \<and>
   console
     (handleEntitySpawn (Num 7) (Str ''0'') ''Units/Allied/E-4'' (Obj 2) (Obj 3) (Bool True)
       (handleEntitySpawn (Num 7) (Str ''0'') ''Units/Allied/E-4'' (Obj 0) (Obj 1) (Bool True)
          exampleApp)) = [] \<and>
   \<not> distinct (map entityId (entities
     (handleEntitySpawn (Num 7) (Str ''0'') ''Units/Allied/E-4'' (Obj 2) (Obj 3) (Bool True)
       (handleEntitySpawn (Num 7) (Str ''0'') ''Units/Allied/E-4'' (Obj 0) (Obj 1) (Bool True)
          exampleApp))))"
  by (simp add: handleEntitySpawn_def addEntity_def spawn_def exampleApp_def initial_def
      spawnables_of_def AIAirVehicle_spawnFor_def toLowerCase_def toLowerChar_def trim_def
      isWhiteSpace_def)


subsection \<open>The packet store\<close>


lemma replayChunkCallback_store:
  "replayPackets (replayChunkCallback hp s) = replayPackets s"
  "groupedReplayPackets (replayChunkCallback hp s) = groupedReplayPackets s"
  by (simp_all add: replayChunkCallback_def Let_def)







subsection \<open>Interpolated timestamps\<close>

lemma currentReplayChunkReceive_handleReplayChunk:
  assumes "handleReplayChunk now rpcs s = Inr s'"
  shows "expectedReplayChunks s' = expectedReplayChunks s \<and>
         (case onReplayChunk s of
            None \<Rightarrow> currentReplayChunkReceive s' = currentReplayChunkReceive s \<and> onReplayChunk s' = None
          | Some hp \<Rightarrow>
              currentReplayChunkReceive s' = currentReplayChunkReceive s + 1 \<and>
              onReplayChunk s' =
                (if currentReplayChunkReceive s + 1 = expectedReplayChunks s then None else Some hp))"
proof (cases rpcs)
  case Nil
  with assms show ?thesis by (simp add: handleReplayChunk_def)
next
  case (Cons rpc0 rest)
  with assms show ?thesis
    by (cases "timestamp rpc0"; cases "onReplayChunk s")
      (auto simp: handleReplayChunk_def Let_def replayChunkCallback_def)
qed

lemma handleReplayChunks_counter:
  "handleReplayChunks chunks s = Inr s' \<Longrightarrow> onReplayChunk s = Some hp \<Longrightarrow>
   currentReplayChunkReceive s < expectedReplayChunks s \<Longrightarrow>
   currentReplayChunkReceive s + int (length chunks) \<le> expectedReplayChunks s \<Longrightarrow>
   currentReplayChunkReceive s' = currentReplayChunkReceive s + int (length chunks)"
proof (induction chunks arbitrary: s)
  case Nil
  then show ?case by simp
next
  case (Cons c chunks)
  obtain now rpcs where c: "c = (now, rpcs)" by (cases c)
  from Cons.prems(1) c obtain s1 where
    s1: "handleReplayChunk now rpcs s = Inr s1" "handleReplayChunks chunks s1 = Inr s'"
    by (auto split: sum.splits)
  from currentReplayChunkReceive_handleReplayChunk [OF s1(1)] Cons.prems(2)
  have k: "expectedReplayChunks s1 = expectedReplayChunks s"
    "currentReplayChunkReceive s1 = currentReplayChunkReceive s + 1"
    "onReplayChunk s1 =
       (if currentReplayChunkReceive s + 1 = expectedReplayChunks s then None else Some hp)"
    by simp_all
  show ?case
  proof (cases chunks)
    case Nil
    with s1(2) k show ?thesis by simp
  next
    case (Cons c2 rest)
    with Cons.prems(4) k have lt: "currentReplayChunkReceive s1 < expectedReplayChunks s1"
      by simp
    with k have on: "onReplayChunk s1 = Some hp" by simp
    from Cons.prems(4) k
    have le: "currentReplayChunkReceive s1 + int (length chunks) \<le> expectedReplayChunks s1"
      by simp
    from Cons.IH [OF s1(2) on lt le] k show ?thesis by simp
  qed
qed

lemma handleReplayChunks_counter_unbounded:
  "handleReplayChunks chunks s = Inr s' \<Longrightarrow> onReplayChunk s = Some hp \<Longrightarrow>
   expectedReplayChunks s \<le> currentReplayChunkReceive s \<Longrightarrow>
   currentReplayChunkReceive s' = currentReplayChunkReceive s + int (length chunks)"
proof (induction chunks arbitrary: s)
  case Nil
  then show ?case by simp
next
  case (Cons c chunks)
  obtain now rpcs where c: "c = (now, rpcs)" by (cases c)
  from Cons.prems(1) c obtain s1 where
    s1: "handleReplayChunk now rpcs s = Inr s1" "handleReplayChunks chunks s1 = Inr s'"
    by (auto split: sum.splits)
  from currentReplayChunkReceive_handleReplayChunk [OF s1(1)] Cons.prems(2,3)
  have k: "expectedReplayChunks s1 = expectedReplayChunks s"
    "currentReplayChunkReceive s1 = currentReplayChunkReceive s + 1"
    "onReplayChunk s1 = Some hp"
    by simp_all
  from Cons.prems(3) k have "expectedReplayChunks s1 \<le> currentReplayChunkReceive s1"
    by simp
  from Cons.IH [OF s1(2) k(3) this] k show ?case by simp
qed

lemma handleReplayChunk_interpolated:
  assumes "rpcs \<noteq> []" and "timestamp (hd rpcs) = None"
  shows "\<exists>s'. handleReplayChunk now rpcs s = Inr s' \<and>
           replayPackets s' = replayPackets s @
             map (\<lambda>(i, rpc). rpc\<lparr>timestamp :=
                    Some (of_int (currentReplayChunkReceive s) * 30000
                            + of_nat i * (30000 / of_nat (length rpcs)))\<rparr>)
               (enumerate 0 rpcs)"
proof -
  from assms obtain rpc0 rest where r: "rpcs = rpc0 # rest" "timestamp rpc0 = None"
    by (cases rpcs) auto
  have "interpolateTimestamps (currentReplayChunkReceive s) rpcs =
      map (\<lambda>(i, rpc). rpc\<lparr>timestamp :=
                    Some (of_int (currentReplayChunkReceive s) * 30000
                            + of_nat i * (30000 / of_nat (length rpcs)))\<rparr>)
        (enumerate 0 rpcs)"
    by (simp add: interpolateTimestamps_def Let_def mult.commute)
  with r show ?thesis
    by (simp add: handleReplayChunk_def Let_def replayChunkCallback_store split: option.splits)
qed

text \<open>
  C3, as the code has it. A chunk with at least one packet whose first packet has no
  timestamp is handled without failure, and its packet \<open>i\<close> (from 0) enters the store with
  the timestamp \<open>counter * 30000 + i * (30000 / batchSize)\<close>, where \<open>counter\<close> is the value
  of \<open>currentReplayChunkReceive\<close> when the chunk arrives. That counter is the number of
  chunks handled since \<open>requestReplay\<close>, the 0-based sequence number of the arriving chunk,
  as long as the callback of the request was still installed for every earlier chunk:
  when at most \<open>expectedReplayChunks\<close> chunks came before, or that number is not positive.
\<close>

theorem C3_interpolated_timestamps:
  assumes "rpcs \<noteq> []" and "timestamp (hd rpcs) = None"
  shows "(\<exists>s'. handleReplayChunk now rpcs s = Inr s' \<and>
            replayPackets s' = replayPackets s @
              map (\<lambda>(i, rpc). rpc\<lparr>timestamp :=
                     Some (of_int (currentReplayChunkReceive s) * 30000
                             + of_nat i * (30000 / of_nat (length rpcs)))\<rparr>)
                (enumerate 0 rpcs)) \<and>
         (handleReplayChunks chunks (requestReplay hp s0) = Inr s \<and>
          (int (length chunks) \<le> expectedReplayChunks s0 \<or> expectedReplayChunks s0 \<le> 0)
            \<longrightarrow> currentReplayChunkReceive s = int (length chunks))"
proof
  show "\<exists>s'. handleReplayChunk now rpcs s = Inr s' \<and>
            replayPackets s' = replayPackets s @
              map (\<lambda>(i, rpc). rpc\<lparr>timestamp :=
                     Some (of_int (currentReplayChunkReceive s) * 30000
                             + of_nat i * (30000 / of_nat (length rpcs)))\<rparr>)
                (enumerate 0 rpcs)"
    by (rule handleReplayChunk_interpolated [OF assms])
  show "handleReplayChunks chunks (requestReplay hp s0) = Inr s \<and>
          (int (length chunks) \<le> expectedReplayChunks s0 \<or> expectedReplayChunks s0 \<le> 0)
            \<longrightarrow> currentReplayChunkReceive s = int (length chunks)"
  proof
    assume a: "handleReplayChunks chunks (requestReplay hp s0) = Inr s \<and>
          (int (length chunks) \<le> expectedReplayChunks s0 \<or> expectedReplayChunks s0 \<le> 0)"
    let ?r = "requestReplay hp s0"
    have f: "onReplayChunk ?r = Some hp" "currentReplayChunkReceive ?r = 0"
      "expectedReplayChunks ?r = expectedReplayChunks s0"
      by (simp_all add: requestReplay_def)
    show "currentReplayChunkReceive s = int (length chunks)"
    proof (cases "expectedReplayChunks s0 \<le> 0")
      case True
      with f have "expectedReplayChunks ?r \<le> currentReplayChunkReceive ?r" by simp
      from handleReplayChunks_counter_unbounded [OF conjunct1 [OF a] f(1) this] f
      show ?thesis by simp
    next
      case False
      with a f have "currentReplayChunkReceive ?r < expectedReplayChunks ?r"
        "currentReplayChunkReceive ?r + int (length chunks) \<le> expectedReplayChunks ?r"
        by simp_all
      from handleReplayChunks_counter [OF conjunct1 [OF a] f(1) this] f
      show ?thesis by simp
    qed
  qed
qed

theorem C3_interpolated_timestamps_witness:
  "map timestamp (replayPackets (projr (handleReplayChunk 0
       [untimedPacket ''a'', untimedPacket ''b'', untimedPacket ''c'']
       (projr (handleReplayChunks
          [(0, [instantiatePacket 5 ''Units/Allied/E-4'' 1000]), (0, [destroyPacket 5 31000])]
          (requestReplay False (exampleApp\<lparr>expectedReplayChunks := 3\<rparr>)))))))
     = [Some 1000, Some 31000, Some 60000, Some 70000, Some 80000]"
proof -
  let ?chunks = "[(0::real, [instantiatePacket 5 ''Units/Allied/E-4'' 1000]), (0, [destroyPacket 5 31000])]"
  let ?app = "exampleApp\<lparr>expectedReplayChunks := 3\<rparr>"
  let ?s = "projr (handleReplayChunks ?chunks (requestReplay False ?app))"
  let ?rpcs = "[untimedPacket ''a'', untimedPacket ''b'', untimedPacket ''c'']"
  have r: "handleReplayChunks ?chunks (requestReplay False ?app) = Inr ?s"
    by (simp add: handleReplayChunk_def Let_def instantiatePacket_def destroyPacket_def
        requestReplay_def replayChunkCallback_def exampleApp_def initial_def)
  have p: "replayPackets ?s = [instantiatePacket 5 ''Units/Allied/E-4'' 1000, destroyPacket 5 31000]"
    by (simp add: handleReplayChunk_def Let_def instantiatePacket_def destroyPacket_def
        requestReplay_def replayChunkCallback_def exampleApp_def initial_def)
  have h: "?rpcs \<noteq> []" "timestamp (hd ?rpcs) = None"
    by (simp_all add: untimedPacket_def)
  have e: "int (length ?chunks) \<le> expectedReplayChunks ?app \<or> expectedReplayChunks ?app \<le> 0"
    by simp
  note t = C3_interpolated_timestamps [OF h, of 0 ?s ?chunks False ?app]
  from t r e have "currentReplayChunkReceive ?s = int (length ?chunks)"
    by blast
  then have c: "currentReplayChunkReceive ?s = 2"
    by simp
  from t have "\<exists>s'. handleReplayChunk 0 ?rpcs ?s = Inr s' \<and>
            replayPackets s' = replayPackets ?s @
              map (\<lambda>(i, rpc). rpc\<lparr>timestamp :=
                     Some (of_int (currentReplayChunkReceive ?s) * 30000
                             + of_nat i * (30000 / of_nat (length ?rpcs)))\<rparr>)
                (enumerate 0 ?rpcs)"
    by blast
  then obtain s' where s': "handleReplayChunk 0 ?rpcs ?s = Inr s'"
    "replayPackets s' = replayPackets ?s @
              map (\<lambda>(i, rpc). rpc\<lparr>timestamp :=
                     Some (of_int (currentReplayChunkReceive ?s) * 30000
                             + of_nat i * (30000 / of_nat (length ?rpcs)))\<rparr>)
                (enumerate 0 ?rpcs)"
    by blast
  from s'(2) show ?thesis
    unfolding s'(1) c p
    by (simp add: instantiatePacket_def destroyPacket_def untimedPacket_def)
qed

text \<open>
  C3, the claim as worded fails: with no replay request pending, so that no callback is
  installed, the chunk counter stays at 0, and the second chunk received (sequence number
  1) gets the timestamps 0, 10000, 20000 of chunk index 0 again, not 30000, 40000, 50000.
\<close>

theorem C3_second_chunk_counterexample:
  "map timestamp (replayPackets (projr (handleReplayChunks
       [(0, [untimedPacket ''a'', untimedPacket ''b'', untimedPacket ''c'']),
        (0, [untimedPacket ''d'', untimedPacket ''e'', untimedPacket ''f''])]
       exampleApp)))
     = [Some 0, Some 10000, Some 20000, Some 0, Some 10000, Some 20000] \<and>
   console (projr (handleReplayChunks
       [(0, [untimedPacket ''a'', untimedPacket ''b'', untimedPacket ''c'']),
        (0, [untimedPacket ''d'', untimedPacket ''e'', untimedPacket ''f''])]
       exampleApp))
     = [ErrorChunkNoTimestamp 0, WarnChunkWithoutCallback,
        ErrorChunkNoTimestamp 0, WarnChunkWithoutCallback]"
  by (simp add: handleReplayChunk_def Let_def untimedPacket_def interpolateTimestamps_def
      exampleApp_def initial_def)


subsection \<open>The loop of a tick\<close>

lemma find_replaceRPCHandlers:
  "List.find (\<lambda>h. h_className h = className pkt \<and> h_method h = methodName pkt) replaceRPCHandlers =
     (if className pkt = ''MessageHandler'' \<and> methodName pkt = ''NetInstantiate''
      then Some \<lparr>h_className = ''MessageHandler'', h_method = ''NetInstantiate'',
                 handler = undoNetInstantiate\<rparr>
      else if className pkt = ''MessageHandler'' \<and> methodName pkt = ''NetDestroy''
      then Some \<lparr>h_className = ''MessageHandler'', h_method = ''NetDestroy'',
                 handler = undoNetDestroy\<rparr>
      else None)"
  by (auto simp: replaceRPCHandlers_def)


lemma replayPacket_outside:
  "\<not> packetIsInTimeframe now s pkt \<Longrightarrow> replayPacket now pkt (s, packets) = Inr (s, packets)"
  by (simp add: replayPacket_def)

lemma replayPacket_forward:
  "packetIsInTimeframe now s pkt \<Longrightarrow> computedReplaySpeed s = Some speed \<Longrightarrow> \<not> speed < 0 \<Longrightarrow>
   replayPacket now pkt (s, packets) = Inr (s, packets @ [pkt])"
  by (simp add: replayPacket_def)

lemma replayPacket_reverse:
  assumes "packetIsInTimeframe now s pkt" and "computedReplaySpeed s = Some speed"
    and "speed < 0" and "messageHandler s \<noteq> None"
  shows "replayPacket now pkt (s, packets)
           = Inr (undoEffect pkt s, packets @ undone (replayPackets s) pkt)"
  using assms
  by (auto simp: replayPacket_def find_replaceRPCHandlers undoNetInstantiate_def
      undoNetDestroy_def undoEffect_def undone_def Let_def split: option.splits)







subsection \<open>A whole tick\<close>

lemma NetDestroy_frame:
  "replayPackets (NetDestroy i s) = replayPackets s"
  "groupedReplayPackets (NetDestroy i s) = groupedReplayPackets s"
  "replaySpeed (NetDestroy i s) = replaySpeed s"
  "replayCurrentTime (NetDestroy i s) = replayCurrentTime s"
  "prevReplayTime (NetDestroy i s) = prevReplayTime s"
  "replayStartTime (NetDestroy i s) = replayStartTime s"
  "messageHandler (NetDestroy i s) = messageHandler s"
  "spawnables (NetDestroy i s) = spawnables s"
  "dispatched (NetDestroy i s) = dispatched s"
  by (simp_all add: NetDestroy_def split: prod.splits option.splits)

lemma handleEntitySpawn_frame:
  "replayPackets (handleEntitySpawn i owner p pos rot act s) = replayPackets s"
  "groupedReplayPackets (handleEntitySpawn i owner p pos rot act s) = groupedReplayPackets s"
  "replaySpeed (handleEntitySpawn i owner p pos rot act s) = replaySpeed s"
  "replayCurrentTime (handleEntitySpawn i owner p pos rot act s) = replayCurrentTime s"
  "prevReplayTime (handleEntitySpawn i owner p pos rot act s) = prevReplayTime s"
  "replayStartTime (handleEntitySpawn i owner p pos rot act s) = replayStartTime s"
  "messageHandler (handleEntitySpawn i owner p pos rot act s) = messageHandler s"
  "spawnables (handleEntitySpawn i owner p pos rot act s) = spawnables s"
  "dispatched (handleEntitySpawn i owner p pos rot act s) = dispatched s"
  by (simp_all add: handleEntitySpawn_def addEntity_def split: option.splits)

lemma undoEffect_frame:
  "replayPackets (undoEffect pkt s) = replayPackets s"
  "groupedReplayPackets (undoEffect pkt s) = groupedReplayPackets s"
  "replaySpeed (undoEffect pkt s) = replaySpeed s"
  "replayCurrentTime (undoEffect pkt s) = replayCurrentTime s"
  "prevReplayTime (undoEffect pkt s) = prevReplayTime s"
  "replayStartTime (undoEffect pkt s) = replayStartTime s"
  "messageHandler (undoEffect pkt s) = messageHandler s"
  "spawnables (undoEffect pkt s) = spawnables s"
  "dispatched (undoEffect pkt s) = dispatched s"
  by (simp_all add: undoEffect_def NetDestroy_frame)

lemma invoke_frame:
  "replayPackets (invoke p s) = replayPackets s"
  "groupedReplayPackets (invoke p s) = groupedReplayPackets s"
  "replaySpeed (invoke p s) = replaySpeed s"
  "replayCurrentTime (invoke p s) = replayCurrentTime s"
  "prevReplayTime (invoke p s) = prevReplayTime s"
  "replayStartTime (invoke p s) = replayStartTime s"
  "messageHandler (invoke p s) = messageHandler s"
  "spawnables (invoke p s) = spawnables s"
  "dispatched (invoke p s) = dispatched s"
  by (simp_all add: invoke_def NetInstantiate_def SetEntityUnitID_def NetDestroy_frame
      handleEntitySpawn_frame split: option.splits jsval.splits)

lemma fold_handlePacket_frame:
  "replayCurrentTime (fold handlePacket ps s) = replayCurrentTime s"
  "prevReplayTime (fold handlePacket ps s) = prevReplayTime s"
  "replayStartTime (fold handlePacket ps s) = replayStartTime s"
  "replaySpeed (fold handlePacket ps s) = replaySpeed s"
  "replayPackets (fold handlePacket ps s) = replayPackets s"
  "groupedReplayPackets (fold handlePacket ps s) = groupedReplayPackets s"
  "messageHandler (fold handlePacket ps s) = messageHandler s"
  "spawnables (fold handlePacket ps s) = spawnables s"
  by (induction ps arbitrary: s) (simp_all add: handlePacket_def invoke_frame)

lemma fold_handlePacket_dispatched:
  "dispatched (fold handlePacket ps s) = dispatched s @ ps"
  by (induction ps arbitrary: s) (simp_all add: handlePacket_def invoke_frame)

lemma packetIsInTimeframe_cong:
  "replaySpeed s' = replaySpeed s \<Longrightarrow> replayCurrentTime s' = replayCurrentTime s \<Longrightarrow>
   prevReplayTime s' = prevReplayTime s \<Longrightarrow> replayStartTime s' = replayStartTime s \<Longrightarrow>
   packetIsInTimeframe now s' = packetIsInTimeframe now s"
  by (rule ext) (simp add: packetIsInTimeframe_def computedReplaySpeed_def Let_def
      split: option.splits)

lemma replayLoop_forward:
  "computedReplaySpeed s = Some speed \<Longrightarrow> \<not> speed < 0 \<Longrightarrow>
   replayLoop now ps (s, packets) = Inr (s, packets @ filter (packetIsInTimeframe now s) ps)"
proof (induction ps arbitrary: packets)
  case Nil
  then show ?case by simp
next
  case (Cons p ps)
  show ?case
  proof (cases "packetIsInTimeframe now s p")
    case True
    from replayPacket_forward [OF True Cons.prems] Cons.IH [OF Cons.prems] True
    show ?thesis by simp
  next
    case False
    from replayPacket_outside [OF False] Cons.IH [OF Cons.prems] False
    show ?thesis by simp
  qed
qed

lemma fold_undoEffect_frame:
  "replayPackets (fold undoEffect ps s) = replayPackets s"
  "groupedReplayPackets (fold undoEffect ps s) = groupedReplayPackets s"
  "replaySpeed (fold undoEffect ps s) = replaySpeed s"
  "replayCurrentTime (fold undoEffect ps s) = replayCurrentTime s"
  "prevReplayTime (fold undoEffect ps s) = prevReplayTime s"
  "replayStartTime (fold undoEffect ps s) = replayStartTime s"
  "messageHandler (fold undoEffect ps s) = messageHandler s"
  "spawnables (fold undoEffect ps s) = spawnables s"
  "dispatched (fold undoEffect ps s) = dispatched s"
  by (induction ps arbitrary: s) (simp_all add: undoEffect_frame)

lemma replayLoop_reverse:
  "computedReplaySpeed s = Some speed \<Longrightarrow> speed < 0 \<Longrightarrow> messageHandler s \<noteq> None \<Longrightarrow>
   replayLoop now ps (s, packets) =
     Inr (fold undoEffect (filter (packetIsInTimeframe now s) ps) s,
          packets @ concat (map (undone (replayPackets s)) (filter (packetIsInTimeframe now s) ps)))"
proof (induction ps arbitrary: s packets)
  case Nil
  then show ?case by simp
next
  case (Cons p ps)
  show ?case
  proof (cases "packetIsInTimeframe now s p")
    case True
    let ?s1 = "undoEffect p s"
    have sp: "computedReplaySpeed ?s1 = Some speed"
      using Cons.prems(1) by (simp add: computedReplaySpeed_def undoEffect_frame)
    have mh: "messageHandler ?s1 \<noteq> None"
      using Cons.prems(3) by (simp add: undoEffect_frame)
    have tf: "packetIsInTimeframe now ?s1 = packetIsInTimeframe now s"
      by (rule packetIsInTimeframe_cong) (simp_all add: undoEffect_frame)
    from replayPacket_reverse [OF True Cons.prems, of packets]
      Cons.IH [OF sp Cons.prems(2) mh, of "packets @ undone (replayPackets s) p"] True
    show ?thesis by (simp add: tf undoEffect_frame)
  next
    case False
    from replayPacket_outside [OF False] Cons.IH [OF Cons.prems] False
    show ?thesis by simp
  qed
qed

lemma advanced_frame:
  "replayPackets (advanced e s) = replayPackets s"
  "groupedReplayPackets (advanced e s) = groupedReplayPackets s"
  "replaySpeed (advanced e s) = replaySpeed s"
  "prevReplayTime (advanced e s) = prevReplayTime s"
  "replayStartTime (advanced e s) = replayStartTime s"
  "messageHandler (advanced e s) = messageHandler s"
  "spawnables (advanced e s) = spawnables s"
  "dispatched (advanced e s) = dispatched s"
  "entities (advanced e s) = entities s"
  by (simp_all add: advanced_def split: option.splits)

lemma advanced_time:
  "computedReplaySpeed s = Some speed \<Longrightarrow>
   replayCurrentTime (advanced e s) = replayCurrentTime s + tickDt e * speed"
  by (simp add: advanced_def)

lemma runReplay_unfold:
  assumes "computedReplaySpeed s = Some speed"
  shows "runReplay now e s =
     (case replayLoop now (candidates e s) (advanced e s, []) of
        Inl err \<Rightarrow> Inl err
      | Inr (s3, packets) \<Rightarrow>
          Inr ((fold handlePacket packets s3)
                 \<lparr>prevReplayTime := replayCurrentTime (fold handlePacket packets s3)\<rparr>,
               tickDt e * speed))"
proof -
  have g: "groupedReplayPackets (advanced e s) = groupedReplayPackets s"
    "prevReplayTime (advanced e s) = prevReplayTime s"
    by (simp_all add: advanced_def split: option.splits)
  have c: "candidates e s =
      packetGroup (advanced e s) (replayCurrentTime (advanced e s))
        @ packetGroup (advanced e s) (prevReplayTime (advanced e s))"
    by (simp add: candidates_def packetGroup_def g)
  show ?thesis
    unfolding c using assms
    by (cases "1000 < e")
      (simp_all add: runReplay_def Let_def advanced_def tickDt_def split: sum.splits)
qed

lemma runReplay_forward:
  assumes "computedReplaySpeed s = Some speed" and "\<not> speed < 0"
  shows "runReplay now e s =
     Inr ((fold handlePacket (filter (packetIsInTimeframe now (advanced e s)) (candidates e s))
             (advanced e s))\<lparr>prevReplayTime := replayCurrentTime (advanced e s)\<rparr>,
          tickDt e * speed)"
proof -
  have sp: "computedReplaySpeed (advanced e s) = Some speed"
    using assms(1) by (simp add: computedReplaySpeed_def advanced_frame)
  from replayLoop_forward [OF sp assms(2), of now "candidates e s" "[]"]
  show ?thesis
    by (simp add: runReplay_unfold [OF assms(1)] fold_handlePacket_frame)
qed

lemma runReplay_reverse:
  assumes "computedReplaySpeed s = Some speed" and "speed < 0" and "messageHandler s \<noteq> None"
  shows "runReplay now e s =
     Inr ((fold handlePacket
             (concat (map (undone (replayPackets s))
                (filter (packetIsInTimeframe now (advanced e s)) (candidates e s))))
             (fold undoEffect (filter (packetIsInTimeframe now (advanced e s)) (candidates e s))
                (advanced e s)))\<lparr>prevReplayTime := replayCurrentTime (advanced e s)\<rparr>,
          tickDt e * speed)"
proof -
  have sp: "computedReplaySpeed (advanced e s) = Some speed"
    using assms(1) by (simp add: computedReplaySpeed_def advanced_frame)
  have mh: "messageHandler (advanced e s) \<noteq> None"
    using assms(3) by (simp add: advanced_frame)
  from replayLoop_reverse [OF sp assms(2) mh, of now "candidates e s" "[]"]
  show ?thesis
    by (simp add: runReplay_unfold [OF assms(1)] fold_handlePacket_frame fold_undoEffect_frame
        advanced_frame)
qed

lemma packetIsInTimeframe_advanced:
  assumes "computedReplaySpeed s = Some speed"
  shows "packetIsInTimeframe now (advanced e s) p \<longleftrightarrow>
     (if speed > 0
      then prevReplayTime s < timestampOr now p - replayStartTime s \<and>
           timestampOr now p - replayStartTime s \<le> replayCurrentTime s + tickDt e * speed
      else if speed < 0
      then replayCurrentTime s + tickDt e * speed \<le> timestampOr now p - replayStartTime s \<and>
           timestampOr now p - replayStartTime s < prevReplayTime s
      else False)"
proof -
  have sp: "computedReplaySpeed (advanced e s) = Some speed"
    using assms by (simp add: computedReplaySpeed_def advanced_frame)
  show ?thesis
    by (auto simp: packetIsInTimeframe_def sp Let_def advanced_frame advanced_time [OF assms])
qed

text \<open>
  C1, as the code has it. A tick with a speed of the table always returns when the speed is
  not negative, and when it is negative provided a message handler exists; it moves the
  replay time by the time step times the speed. With \<open>T p\<close> the timestamp of \<open>p\<close> since the
  start of the recording: for speed \<open>> 0\<close> the packets dispatched are exactly the candidates
  with \<open>prevReplayTime < T p \<le> replayCurrentTime\<close>, in candidate order; for speed 0 nothing
  is dispatched; for speed \<open>< 0\<close> the candidates with \<open>replayCurrentTime \<le> T p <
  prevReplayTime\<close> are the ones handed to the undo handlers, and what is dispatched is what
  these let through: a packet without undo handler itself, for a destroy packet the first
  instantiate packet of the store with its id if there is one, for an instantiate packet
  nothing.
\<close>

theorem C1_dispatch_interval:
  assumes "computedReplaySpeed s = Some speed"
  shows "(0 < speed \<longrightarrow>
            (\<exists>s' d. runReplay now e s = Inr (s', d) \<and>
               replayCurrentTime s' = replayCurrentTime s + tickDt e * speed \<and>
               dispatched s' = dispatched s @
                 filter (\<lambda>p. prevReplayTime s < timestampOr now p - replayStartTime s \<and>
                             timestampOr now p - replayStartTime s \<le> replayCurrentTime s')
                   (candidates e s))) \<and>
         (speed = 0 \<longrightarrow>
            (\<exists>s' d. runReplay now e s = Inr (s', d) \<and> dispatched s' = dispatched s)) \<and>
         (speed < 0 \<and> messageHandler s \<noteq> None \<longrightarrow>
            (\<exists>s' d. runReplay now e s = Inr (s', d) \<and>
               replayCurrentTime s' = replayCurrentTime s + tickDt e * speed \<and>
               dispatched s' = dispatched s @
                 concat (map (undone (replayPackets s))
                   (filter (\<lambda>p. replayCurrentTime s' \<le> timestampOr now p - replayStartTime s \<and>
                               timestampOr now p - replayStartTime s < prevReplayTime s)
                      (candidates e s)))))"
proof (intro conjI impI)
  assume pos: "0 < speed"
  then have n: "\<not> speed < 0" by simp
  have f: "filter (packetIsInTimeframe now (advanced e s)) (candidates e s) =
      filter (\<lambda>p. prevReplayTime s < timestampOr now p - replayStartTime s \<and>
                  timestampOr now p - replayStartTime s \<le> replayCurrentTime s + tickDt e * speed)
        (candidates e s)"
    using pos by (intro filter_cong refl) (simp add: packetIsInTimeframe_advanced [OF assms])
  show "\<exists>s' d. runReplay now e s = Inr (s', d) \<and>
               replayCurrentTime s' = replayCurrentTime s + tickDt e * speed \<and>
               dispatched s' = dispatched s @
                 filter (\<lambda>p. prevReplayTime s < timestampOr now p - replayStartTime s \<and>
                             timestampOr now p - replayStartTime s \<le> replayCurrentTime s')
                   (candidates e s)"
    by (simp add: runReplay_forward [OF assms n] fold_handlePacket_dispatched
        fold_handlePacket_frame advanced_frame advanced_time [OF assms] f)
next
  assume z: "speed = 0"
  then have n: "\<not> speed < 0" by simp
  have f: "filter (packetIsInTimeframe now (advanced e s)) (candidates e s) = []"
    using z by (simp add: filter_empty_conv packetIsInTimeframe_advanced [OF assms])
  show "\<exists>s' d. runReplay now e s = Inr (s', d) \<and> dispatched s' = dispatched s"
    by (simp add: runReplay_forward [OF assms n] f advanced_frame)
next
  assume a: "speed < 0 \<and> messageHandler s \<noteq> None"
  then have neg: "speed < 0" and mh: "messageHandler s \<noteq> None" by simp_all
  have f: "filter (packetIsInTimeframe now (advanced e s)) (candidates e s) =
      filter (\<lambda>p. replayCurrentTime s + tickDt e * speed \<le> timestampOr now p - replayStartTime s \<and>
                  timestampOr now p - replayStartTime s < prevReplayTime s)
        (candidates e s)"
    using neg by (intro filter_cong refl) (simp add: packetIsInTimeframe_advanced [OF assms])
  show "\<exists>s' d. runReplay now e s = Inr (s', d) \<and>
               replayCurrentTime s' = replayCurrentTime s + tickDt e * speed \<and>
               dispatched s' = dispatched s @
                 concat (map (undone (replayPackets s))
                   (filter (\<lambda>p. replayCurrentTime s' \<le> timestampOr now p - replayStartTime s \<and>
                               timestampOr now p - replayStartTime s < prevReplayTime s)
                      (candidates e s)))"
    by (simp add: runReplay_reverse [OF assms neg mh] fold_handlePacket_dispatched
        fold_handlePacket_frame fold_undoEffect_frame advanced_frame advanced_time [OF assms] f)
qed

lemma exampleLoaded_fields:
  "replayPackets exampleLoaded = exampleStore"
  "replaySpeed exampleLoaded = 7"
  "replayStartTime exampleLoaded = 0"
  "messageHandler exampleLoaded = Some ''replay''"
  "dispatched exampleLoaded = []"
  "entities exampleLoaded = []"
  "console exampleLoaded = []"
  by (simp_all add: exampleLoaded_def exampleApp_def initial_def)

lemma exampleLoaded_packetGroup:
  "packetGroup (exampleLoaded\<lparr>replaySpeed := i, replayCurrentTime := c, prevReplayTime := p\<rparr>) t =
     (if \<lfloor>t / 1000\<rfloor> = 1 then [instantiatePacket 7 ''Units/Allied/E-4'' 1000]
      else if \<lfloor>t / 1000\<rfloor> = 2 then [destroyPacket 7 2000]
      else if \<lfloor>t / 1000\<rfloor> = 3 then [instantiatePacket 7 ''Units/Allied/FA-26A'' 3000]
      else if \<lfloor>t / 1000\<rfloor> = 4 then [destroyPacket 7 4000]
      else [])"
  by (simp add: packetGroup_def exampleLoaded_def exampleStore_def groupPacket_def timestampOr_def
      Let_def instantiatePacket_def destroyPacket_def)

theorem C1_dispatch_interval_witness:
  "dispatched (fst (projr (runReplay 0 1000
       (exampleLoaded\<lparr>replaySpeed := 7, replayCurrentTime := 500, prevReplayTime := 500\<rparr>))))
     = [instantiatePacket 7 ''Units/Allied/E-4'' 1000] \<and>
   dispatched (fst (projr (runReplay 0 1000
       (exampleLoaded\<lparr>replaySpeed := 5, replayCurrentTime := 1500, prevReplayTime := 500\<rparr>))))
     = [] \<and>
   dispatched (fst (projr (runReplay 0 1000
       (exampleLoaded\<lparr>replaySpeed := 3, replayCurrentTime := 4500, prevReplayTime := 4500\<rparr>))))
     = [instantiatePacket 7 ''Units/Allied/E-4'' 1000]"
proof -
  let ?F = "exampleLoaded\<lparr>replaySpeed := 7, replayCurrentTime := 500, prevReplayTime := 500\<rparr>"
  let ?Z = "exampleLoaded\<lparr>replaySpeed := 5, replayCurrentTime := 1500, prevReplayTime := 500\<rparr>"
  let ?R = "exampleLoaded\<lparr>replaySpeed := 3, replayCurrentTime := 4500, prevReplayTime := 4500\<rparr>"
  have spF: "computedReplaySpeed ?F = Some 1"
    and spZ: "computedReplaySpeed ?Z = Some 0"
    and spR: "computedReplaySpeed ?R = Some (- 1)"
    by (simp_all add: computedReplaySpeed_def speedAt_def REPLAY_SPEEDS_def)
  have cF: "candidates 1000 ?F = [instantiatePacket 7 ''Units/Allied/E-4'' 1000]"
    by (simp add: candidates_def advanced_def spF tickDt_def exampleLoaded_packetGroup)
  have cR: "candidates 1000 ?R
      = [instantiatePacket 7 ''Units/Allied/FA-26A'' 3000, destroyPacket 7 4000]"
    by (simp add: candidates_def advanced_def spR tickDt_def exampleLoaded_packetGroup)
  have u: "undone exampleStore (destroyPacket 7 4000) = [instantiatePacket 7 ''Units/Allied/E-4'' 1000]"
    by (simp add: undone_def exampleStore_def isSpawnPacketFor_def loose_eq_def
        destroyPacket_def instantiatePacket_def)
  from C1_dispatch_interval [OF spF, of 0 1000]
  obtain s1 d1 where f: "runReplay 0 1000 ?F = Inr (s1, d1)"
    "replayCurrentTime s1 = replayCurrentTime ?F + tickDt 1000 * 1"
    "dispatched s1 = dispatched ?F @
       filter (\<lambda>p. prevReplayTime ?F < timestampOr 0 p - replayStartTime ?F \<and>
                   timestampOr 0 p - replayStartTime ?F \<le> replayCurrentTime s1)
         (candidates 1000 ?F)"
    by auto
  from C1_dispatch_interval [OF spZ, of 0 1000]
  obtain s2 d2 where z: "runReplay 0 1000 ?Z = Inr (s2, d2)" "dispatched s2 = dispatched ?Z"
    by auto
  from C1_dispatch_interval [OF spR, of 0 1000]
  obtain s3 d3 where r: "runReplay 0 1000 ?R = Inr (s3, d3)"
    "replayCurrentTime s3 = replayCurrentTime ?R + tickDt 1000 * (- 1)"
    "dispatched s3 = dispatched ?R @
       concat (map (undone (replayPackets ?R))
         (filter (\<lambda>p. replayCurrentTime s3 \<le> timestampOr 0 p - replayStartTime ?R \<and>
                     timestampOr 0 p - replayStartTime ?R < prevReplayTime ?R)
            (candidates 1000 ?R)))"
    by (auto simp: exampleLoaded_fields)
  have "dispatched s1 = [instantiatePacket 7 ''Units/Allied/E-4'' 1000]"
    unfolding f(3) f(2) cF
    by (simp add: exampleLoaded_fields tickDt_def timestampOr_def instantiatePacket_def)
  moreover have "dispatched s2 = []"
    unfolding z(2) by (simp add: exampleLoaded_fields)
  moreover have "dispatched s3 = [instantiatePacket 7 ''Units/Allied/E-4'' 1000]"
    unfolding r(3) r(2) cR
    by (simp add: exampleLoaded_fields tickDt_def timestampOr_def instantiatePacket_def
        destroyPacket_def)
      (simp add: u [unfolded destroyPacket_def instantiatePacket_def])
  ultimately show ?thesis
    unfolding f(1) z(1) r(1) by simp
qed

text \<open>
  C1, the claim as worded fails in reverse: the replay moves from 3500 back to 2500 at
  speed \<open>-1\<close>; the instantiate packet of 3000 is a candidate and lies in the interval, yet
  the tick dispatches nothing, its undo handler having called \<open>NetDestroy\<close> instead.
\<close>

theorem C1_reverse_counterexample:
  "computedReplaySpeed
     (exampleLoaded\<lparr>replaySpeed := 3, replayCurrentTime := 3500, prevReplayTime := 3500\<rparr>)
     = Some (- 1) \<and>
   instantiatePacket 7 ''Units/Allied/FA-26A'' 3000 \<in> set (candidates 1000
     (exampleLoaded\<lparr>replaySpeed := 3, replayCurrentTime := 3500, prevReplayTime := 3500\<rparr>)) \<and>
   packetIsInTimeframe 0 (advanced 1000
     (exampleLoaded\<lparr>replaySpeed := 3, replayCurrentTime := 3500, prevReplayTime := 3500\<rparr>))
     (instantiatePacket 7 ''Units/Allied/FA-26A'' 3000) \<and>
   \<not> isl (runReplay 0 1000
     (exampleLoaded\<lparr>replaySpeed := 3, replayCurrentTime := 3500, prevReplayTime := 3500\<rparr>)) \<and>
   replayCurrentTime (fst (projr (runReplay 0 1000
     (exampleLoaded\<lparr>replaySpeed := 3, replayCurrentTime := 3500, prevReplayTime := 3500\<rparr>))))
     = 2500 \<and>
   dispatched (fst (projr (runReplay 0 1000
     (exampleLoaded\<lparr>replaySpeed := 3, replayCurrentTime := 3500, prevReplayTime := 3500\<rparr>))))
     = []"
proof -
  let ?R = "exampleLoaded\<lparr>replaySpeed := 3, replayCurrentTime := 3500, prevReplayTime := 3500\<rparr>"
  have sp: "computedReplaySpeed ?R = Some (- 1)"
    by (simp add: computedReplaySpeed_def speedAt_def REPLAY_SPEEDS_def)
  have c: "candidates 1000 ?R
      = [destroyPacket 7 2000, instantiatePacket 7 ''Units/Allied/FA-26A'' 3000]"
    by (simp add: candidates_def advanced_def sp tickDt_def exampleLoaded_packetGroup)
  have f: "filter (packetIsInTimeframe 0 (advanced 1000 ?R)) (candidates 1000 ?R)
      = [instantiatePacket 7 ''Units/Allied/FA-26A'' 3000]"
    unfolding c
    by (simp add: packetIsInTimeframe_advanced [OF sp] tickDt_def timestampOr_def
        exampleLoaded_fields destroyPacket_def instantiatePacket_def)
  have u: "undone store (instantiatePacket 7 ''Units/Allied/FA-26A'' 3000) = []" for store
    by (simp add: undone_def instantiatePacket_def)
  have mh: "messageHandler ?R \<noteq> None" and neg: "(- 1 :: real) < 0"
    by (simp_all add: exampleLoaded_fields)
  have t: "packetIsInTimeframe 0 (advanced 1000 ?R) (instantiatePacket 7 ''Units/Allied/FA-26A'' 3000)"
    by (simp add: packetIsInTimeframe_advanced [OF sp] tickDt_def timestampOr_def
        exampleLoaded_fields instantiatePacket_def)
  note r = runReplay_reverse [OF sp neg mh, of 0 1000]
  show ?thesis
    unfolding r f
    by (simp add: sp c t u undoEffect_frame advanced_frame advanced_time [OF sp] tickDt_def
        exampleLoaded_fields)
qed


subsection \<open>Pause\<close>

lemma speedAt_zero: "speedAt i = Some 0 \<longleftrightarrow> i = 5"
proof
  assume h: "speedAt i = Some 0"
  then have r: "0 \<le> i" "i < 13"
    by (auto simp: speedAt_def length_REPLAY_SPEEDS split: if_splits)
  then have "i = 0 \<or> i = 1 \<or> i = 2 \<or> i = 3 \<or> i = 4 \<or> i = 5 \<or> i = 6 \<or> i = 7 \<or>
      i = 8 \<or> i = 9 \<or> i = 10 \<or> i = 11 \<or> i = 12"
    by arith
  with h show "i = 5"
    by (auto simp: speedAt_def REPLAY_SPEEDS_def)
next
  assume "i = 5"
  then show "speedAt i = Some 0"
    by (simp add: speedAt_def REPLAY_SPEEDS_def)
qed

text \<open>
  C7, as the code has it: index 0 of the speed table is the fastest reverse speed, \<open>-8\<close>,
  so selecting it does not pause. The entry \<open>0\<close> of the table, and the only one, is at
  index 5: the computed speed of a state is 0 exactly when its speed index is 5, and a tick
  at speed index 5 returns with the replay time where it was.
\<close>

theorem C7_pause_is_index_5:
  "(computedReplaySpeed s = Some 0 \<longleftrightarrow> replaySpeed s = 5) \<and>
   (replaySpeed s = 5 \<longrightarrow>
      (\<exists>s' d. runReplay now e s = Inr (s', d) \<and> d = 0 \<and>
         replayCurrentTime s' = replayCurrentTime s)) \<and>
   (replaySpeed s = 0 \<longrightarrow> computedReplaySpeed s = Some (- 8))"
proof (intro conjI impI)
  show "computedReplaySpeed s = Some 0 \<longleftrightarrow> replaySpeed s = 5"
    by (simp add: computedReplaySpeed_def speedAt_zero)
next
  assume "replaySpeed s = 5"
  then have sp: "computedReplaySpeed s = Some 0"
    by (simp add: computedReplaySpeed_def speedAt_zero)
  have n: "\<not> (0::real) < 0" by simp
  show "\<exists>s' d. runReplay now e s = Inr (s', d) \<and> d = 0 \<and>
         replayCurrentTime s' = replayCurrentTime s"
    by (simp add: runReplay_forward [OF sp n] fold_handlePacket_frame advanced_time [OF sp])
next
  assume "replaySpeed s = 0"
  then show "computedReplaySpeed s = Some (- 8)"
    by (simp add: computedReplaySpeed_def speedAt_def REPLAY_SPEEDS_def)
qed

theorem C7_pause_is_index_5_witness:
  "computedReplaySpeed (exampleLoaded\<lparr>replaySpeed := 5\<rparr>) = Some 0 \<and>
   replayCurrentTime (fst (projr (runReplay 0 16
      (exampleLoaded\<lparr>replaySpeed := 5, replayCurrentTime := 1500, prevReplayTime := 1500\<rparr>))))
     = 1500"
proof -
  let ?S = "exampleLoaded\<lparr>replaySpeed := 5, replayCurrentTime := 1500, prevReplayTime := 1500\<rparr>"
  from C7_pause_is_index_5 [of ?S 0 16]
  obtain s' d where "runReplay 0 16 ?S = Inr (s', d)" "replayCurrentTime s' = replayCurrentTime ?S"
    by auto
  then have "replayCurrentTime (fst (projr (runReplay 0 16 ?S))) = 1500"
    by simp
  with C7_pause_is_index_5 [of "exampleLoaded\<lparr>replaySpeed := 5\<rparr>" 0 16]
  show ?thesis by simp
qed

text \<open>
  C7, the claim as worded fails: with speed index 0 the computed speed is \<open>-8\<close>, not 0,
  and a tick of 16 ms moves the replay time from 1500 back to 1372.
\<close>

theorem C7_index_0_counterexample:
  "computedReplaySpeed (exampleLoaded\<lparr>replaySpeed := 0\<rparr>) = Some (- 8) \<and>
   computedReplaySpeed (exampleLoaded\<lparr>replaySpeed := 0\<rparr>) \<noteq> Some 0 \<and>
   replayCurrentTime (fst (projr (runReplay 0 16
      (exampleLoaded\<lparr>replaySpeed := 0, replayCurrentTime := 1500, prevReplayTime := 1500\<rparr>))))
     = 1372"
proof -
  let ?S = "exampleLoaded\<lparr>replaySpeed := 0, replayCurrentTime := 1500, prevReplayTime := 1500\<rparr>"
  have sp: "computedReplaySpeed ?S = Some (- 8)"
    by (simp add: computedReplaySpeed_def speedAt_def REPLAY_SPEEDS_def)
  have mh: "messageHandler ?S \<noteq> None" and neg: "(- 8 :: real) < 0"
    by (simp_all add: exampleLoaded_fields)
  have "replayCurrentTime (fst (projr (runReplay 0 16 ?S))) = 1372"
    by (simp add: runReplay_reverse [OF sp neg mh] fold_handlePacket_frame fold_undoEffect_frame
        advanced_time [OF sp] tickDt_def)
  then show ?thesis
    by (simp add: computedReplaySpeed_def speedAt_def REPLAY_SPEEDS_def)
qed

subsection \<open>Forward and back\<close>
















































end
